theory Spec2Isabelle
  imports Main "HOL-Library.Word"
begin

unbundle bit_operations_syntax

section \<open>simpleperf report-sample: data model\<close>

type_synonym u64 = "64 word"
type_synonym u32 = "32 word"
type_synonym byte = "8 word"

text \<open>
  The decoded capture records handed to \<^verbatim>\<open>ProcessRecord\<close>. Only the fields that
  \<^verbatim>\<open>cmd_report_sample.cpp\<close> reads from a \<^verbatim>\<open>SampleRecord\<close> are kept:
  \<^verbatim>\<open>tid_data.pid\<close>, \<^verbatim>\<open>tid_data.tid\<close>, \<^verbatim>\<open>time_data.time\<close>, \<^verbatim>\<open>ip_data.ip\<close>,
  \<^verbatim>\<open>callchain_data.ips\<close> and the result of \<^verbatim>\<open>InKernel()\<close>.
\<close>

record SampleRecord =
  tid_data_pid :: u32
  tid_data_tid :: u32
  time_data_time :: u64
  ip_data_ip :: u64
  callchain_data_ips :: "u64 list"
  InKernel :: bool

text \<open>
  A capture record is a sample (\<^verbatim>\<open>type() == PERF_RECORD_SAMPLE\<close>) or a record of any other
  type, whose content only the thread tree looks at.
\<close>

datatype 'o Record = Sample_Record SampleRecord | Other_Record 'o

text \<open>
  The messages of \<^verbatim>\<open>report_sample.proto\<close>, as the accessors used in the source show them:
  a call-chain entry has \<^verbatim>\<open>ip\<close>, \<^verbatim>\<open>symbol\<close> and \<^verbatim>\<open>file\<close>; a sample has \<^verbatim>\<open>time\<close> and
  the repeated \<^verbatim>\<open>callchain\<close>; a record has \<^verbatim>\<open>type\<close> and \<^verbatim>\<open>sample\<close>.
\<close>

record Sample_CallChainEntry =
  cc_ip :: u64
  cc_symbol :: string
  cc_file :: string

record proto_Sample =
  sample_time :: u64
  sample_callchain :: "Sample_CallChainEntry list"

text \<open>
  Modelled from the spec: the enumeration \<^verbatim>\<open>proto::Record::Type\<close> is declared in
  \<^verbatim>\<open>report_sample.proto\<close>, which is not among the sources. The spec's Encoded Record has
  a type tag with exactly one variant today, "sample", the tag being reserved for
  extension; any other tag value a stream may carry is \<open>Record_Type_other\<close> with the
  value that \<^verbatim>\<open>type()\<close> returns.
\<close>

datatype Record_Type = Record_Type_SAMPLE | Record_Type_other int

record proto_Record =
  record_type :: Record_Type
  record_sample :: proto_Sample

subsection \<open>Printed lines and log entries\<close>

text \<open>
  One call of \<^verbatim>\<open>PrintIndented\<close> or \<^verbatim>\<open>FprintIndented\<close> is a pair of the indentation level
  and the line, a line being the format string of the call with its argument:
  \<^verbatim>\<open>"sample:\n"\<close>, \<^verbatim>\<open>"sample %zu:\n"\<close>, \<^verbatim>\<open>"time: %" PRIu64 "\n"\<close>, \<^verbatim>\<open>"ip: %" PRIx64 "\n"\<close>,
  \<^verbatim>\<open>"dso: %s\n"\<close>, \<^verbatim>\<open>"symbol: %s\n"\<close> and \<^verbatim>\<open>"callchain:\n"\<close>.
\<close>

datatype text_line =
    L_sample
  | L_sample_n nat
  | L_time u64
  | L_ip u64
  | L_dso string
  | L_symbol string
  | L_callchain

type_synonym print_call = "nat \<times> text_line"

datatype severity = DEBUG | INFO | ERROR

datatype log_arg = No_arg | Str_arg string | Hex_arg u64 | Type_arg Record_Type | Size_arg nat

text \<open>A \<^verbatim>\<open>LOG\<close> or \<^verbatim>\<open>PLOG\<close> statement: severity, the text, and the value streamed after it.\<close>

type_synonym log_entry = "severity \<times> string \<times> log_arg"

subsection \<open>What the source takes from elsewhere\<close>

text \<open>
  The three constants of the kernel's perf ABI (\<^verbatim>\<open>linux/perf_event.h\<close>) that the call-chain
  walk compares against. Their values are not in the sources; the walk is modelled for
  any values.
\<close>

record perf_context =
  PERF_CONTEXT_MAX :: u64
  PERF_CONTEXT_KERNEL :: u64
  PERF_CONTEXT_USER :: u64

text \<open>
  The operations of \<^verbatim>\<open>ThreadTree\<close> (\<^verbatim>\<open>thread_tree.h\<close>) that the command calls, over an
  abstract state \<open>'tt\<close> of the tree, abstract thread, map and symbol handles, and the two
  accessors \<^verbatim>\<open>map->dso->Path()\<close> and \<^verbatim>\<open>symbol->DemangledName()\<close>. \<^verbatim>\<open>Update\<close> and
  \<^verbatim>\<open>FindThreadOrNew\<close> may change the tree; \<^verbatim>\<open>FindSymbol\<close> is always called with a null
  third argument.
\<close>

record ('tt, 'o, 'th, 'mp, 'sy) ThreadTree =
  Update :: "'o Record \<Rightarrow> 'tt \<Rightarrow> 'tt"
  FindThreadOrNew :: "'tt \<Rightarrow> u32 \<Rightarrow> u32 \<Rightarrow> 'th \<times> 'tt"
  FindMap :: "'tt \<Rightarrow> 'th \<Rightarrow> u64 \<Rightarrow> bool \<Rightarrow> 'mp"
  FindSymbol :: "'tt \<Rightarrow> 'mp \<Rightarrow> u64 \<Rightarrow> 'sy"
  dso_Path :: "'mp \<Rightarrow> string"
  DemangledName :: "'sy \<Rightarrow> string"

section \<open>The call-chain walk of the two printers\<close>

text \<open>The variables that the loop over \<^verbatim>\<open>ips\<close> in \<^verbatim>\<open>PrintSampleRecordInProtobuf\<close> changes.\<close>

record pb_loop =
  pb_in_kernel :: bool
  pb_first_ip :: bool
  pb_sample :: proto_Sample
  pb_log :: "log_entry list"

definition add_callchain :: "Sample_CallChainEntry \<Rightarrow> proto_Sample \<Rightarrow> proto_Sample" where
  "add_callchain e s = s\<lparr>sample_callchain := sample_callchain s @ [e]\<rparr>"

text \<open>The body of the loop, lines 287 to 313, for one value \<open>v\<close> of the raw call-chain.\<close>

definition pb_loop_body ::
  "perf_context \<Rightarrow> ('tt, 'o, 'th, 'mp, 'sy) ThreadTree \<Rightarrow> 'tt \<Rightarrow> 'th \<Rightarrow> SampleRecord \<Rightarrow>
   pb_loop \<Rightarrow> u64 \<Rightarrow> pb_loop" where
  "pb_loop_body K T tt thread r st v =
     (if v \<ge> PERF_CONTEXT_MAX K then
        (if v = PERF_CONTEXT_KERNEL K then st\<lparr>pb_in_kernel := True\<rparr>
         else if v = PERF_CONTEXT_USER K then st\<lparr>pb_in_kernel := False\<rparr>
         else st\<lparr>pb_log := pb_log st @
                 [(DEBUG, ''Unexpected perf_context in callchain: '', Hex_arg v)]\<rparr>)
      else if pb_first_ip st \<and> v = ip_data_ip r then st\<lparr>pb_first_ip := False\<rparr>
      else
        (let map = FindMap T tt thread v (pb_in_kernel st);
             symbol = FindSymbol T tt map v
         in st\<lparr>pb_first_ip := False,
                pb_sample := add_callchain
                  \<lparr>cc_ip = v, cc_symbol = DemangledName T symbol, cc_file = dso_Path T map\<rparr>
                  (pb_sample st)\<rparr>))"

text \<open>
  Lines 268 to 315 of \<^verbatim>\<open>PrintSampleRecordInProtobuf\<close>: the record that is built for a
  sample, the debug log of the walk, and the thread tree after \<^verbatim>\<open>FindThreadOrNew\<close>.
\<close>

definition build_proto_record ::
  "perf_context \<Rightarrow> ('tt, 'o, 'th, 'mp, 'sy) ThreadTree \<Rightarrow> bool \<Rightarrow> 'tt \<Rightarrow> SampleRecord \<Rightarrow>
   proto_Record \<times> log_entry list \<times> 'tt" where
  "build_proto_record K T show_callchain tt r =
     (let in_kernel = InKernel r;
          (thread, tt1) = FindThreadOrNew T tt (tid_data_pid r) (tid_data_tid r);
          map = FindMap T tt1 thread (ip_data_ip r) in_kernel;
          symbol = FindSymbol T tt1 map (ip_data_ip r);
          sample = \<lparr>sample_time = time_data_time r,
                    sample_callchain =
                      [\<lparr>cc_ip = ip_data_ip r, cc_symbol = DemangledName T symbol,
                        cc_file = dso_Path T map\<rparr>]\<rparr>;
          st0 = \<lparr>pb_in_kernel = in_kernel, pb_first_ip = True, pb_sample = sample, pb_log = []\<rparr>;
          st = (if show_callchain
                then foldl (pb_loop_body K T tt1 thread r) st0 (callchain_data_ips r)
                else st0)
      in (\<lparr>record_type = Record_Type_SAMPLE, record_sample = pb_sample st\<rparr>, pb_log st, tt1))"

text \<open>The variables that the loop over \<^verbatim>\<open>ips\<close> in \<^verbatim>\<open>PrintSampleRecord\<close> changes.\<close>

record text_loop =
  tx_in_kernel :: bool
  tx_first_ip :: bool
  tx_out :: "print_call list"
  tx_log :: "log_entry list"

text \<open>The body of the loop, lines 341 to 366.\<close>

definition text_loop_body ::
  "perf_context \<Rightarrow> ('tt, 'o, 'th, 'mp, 'sy) ThreadTree \<Rightarrow> 'tt \<Rightarrow> 'th \<Rightarrow> SampleRecord \<Rightarrow>
   text_loop \<Rightarrow> u64 \<Rightarrow> text_loop" where
  "text_loop_body K T tt thread r st v =
     (if v \<ge> PERF_CONTEXT_MAX K then
        (if v = PERF_CONTEXT_KERNEL K then st\<lparr>tx_in_kernel := True\<rparr>
         else if v = PERF_CONTEXT_USER K then st\<lparr>tx_in_kernel := False\<rparr>
         else st\<lparr>tx_log := tx_log st @
                 [(DEBUG, ''Unexpected perf_context in callchain: '', Hex_arg v)]\<rparr>)
      else if tx_first_ip st \<and> v = ip_data_ip r then st\<lparr>tx_first_ip := False\<rparr>
      else
        (let map = FindMap T tt thread v (tx_in_kernel st);
             symbol = FindSymbol T tt map v
         in st\<lparr>tx_first_ip := False,
                tx_out := tx_out st @
                  [(2, L_ip v), (2, L_dso (dso_Path T map)),
                   (2, L_symbol (DemangledName T symbol))]\<rparr>))"

text \<open>
  \<^verbatim>\<open>PrintSampleRecord\<close>: the return value, the calls of \<^verbatim>\<open>FprintIndented\<close> on the report
  file in order, the debug log, and the thread tree after \<^verbatim>\<open>FindThreadOrNew\<close>.
\<close>

definition PrintSampleRecord ::
  "perf_context \<Rightarrow> ('tt, 'o, 'th, 'mp, 'sy) ThreadTree \<Rightarrow> bool \<Rightarrow> 'tt \<Rightarrow> SampleRecord \<Rightarrow>
   bool \<times> print_call list \<times> log_entry list \<times> 'tt" where
  "PrintSampleRecord K T show_callchain tt r =
     (let in_kernel = InKernel r;
          (thread, tt1) = FindThreadOrNew T tt (tid_data_pid r) (tid_data_tid r);
          map = FindMap T tt1 thread (ip_data_ip r) in_kernel;
          symbol = FindSymbol T tt1 map (ip_data_ip r);
          out = [(0, L_sample), (1, L_time (time_data_time r)), (1, L_ip (ip_data_ip r)),
                 (1, L_dso (dso_Path T map)), (1, L_symbol (DemangledName T symbol))];
          st0 = \<lparr>tx_in_kernel = in_kernel, tx_first_ip = True, tx_out = out, tx_log = []\<rparr>;
          st = (if show_callchain
                then foldl (text_loop_body K T tt1 thread r)
                       (st0\<lparr>tx_out := out @ [(1, L_callchain)]\<rparr>) (callchain_data_ips r)
                else st0)
      in (True, tx_out st, tx_log st, tt1))"

section \<open>Files and the protobuf coded streams\<close>

text \<open>
  A \<^verbatim>\<open>FILE\<close> open for writing: the lines that \<^verbatim>\<open>FprintIndented\<close> has printed to it, the
  bytes that have reached the file, the bytes still in the buffer of stdio and the
  size of that buffer, the number of further lines or bytes the file takes (\<open>None\<close>: any
  number) and its error indicator, which \<^verbatim>\<open>ferror\<close> reads.
\<close>

record FILE =
  f_text :: "print_call list"
  f_bytes :: "byte list"
  f_pending :: "byte list"
  f_bufsize :: nat
  f_room :: "nat option"
  f_error :: bool

definition FprintIndented :: "FILE \<Rightarrow> print_call \<Rightarrow> FILE" where
  "FprintIndented fp c =
     (case f_room fp of
        None \<Rightarrow> fp\<lparr>f_text := f_text fp @ [c]\<rparr>
      | Some 0 \<Rightarrow> fp\<lparr>f_error := True\<rparr>
      | Some (Suc n) \<Rightarrow> fp\<lparr>f_text := f_text fp @ [c], f_room := Some n\<rparr>)"

text \<open>
  Bytes handed to the file itself, as stdio does when it empties its buffer: the file
  takes as many as it has room for; if that is not all of them the write fails and
  sets the error indicator.
\<close>

definition file_put :: "byte list \<Rightarrow> FILE \<Rightarrow> bool \<times> FILE" where
  "file_put bs fp =
     (case f_room fp of
        None \<Rightarrow> (True, fp\<lparr>f_bytes := f_bytes fp @ bs\<rparr>)
      | Some n \<Rightarrow>
          if length bs \<le> n
          then (True, fp\<lparr>f_bytes := f_bytes fp @ bs, f_room := Some (n - length bs)\<rparr>)
          else (False, fp\<lparr>f_bytes := f_bytes fp @ take n bs, f_room := Some 0,
                         f_error := True\<rparr>))"

definition fflush :: "FILE \<Rightarrow> bool \<times> FILE" where
  "fflush fp = (let (ok, fp1) = file_put (f_pending fp) fp in (ok, fp1\<lparr>f_pending := []\<rparr>))"

text \<open>
  \<^verbatim>\<open>fwrite(buffer, size, 1, fp) == 1\<close>, as \<^verbatim>\<open>ProtobufFileWriter::Write\<close> calls it: bytes
  that fit the buffer of stdio stay there and the call succeeds, whatever the file can
  take; otherwise the buffer is emptied into the file with them, and the call succeeds
  if the file took them all.
\<close>

definition fwrite :: "byte list \<Rightarrow> FILE \<Rightarrow> bool \<times> FILE" where
  "fwrite bs fp =
     (if length (f_pending fp) + length bs \<le> f_bufsize fp
      then (True, fp\<lparr>f_pending := f_pending fp @ bs\<rparr>)
      else fflush (fp\<lparr>f_pending := f_pending fp @ bs\<rparr>))"

text \<open>\<^verbatim>\<open>fclose\<close> empties the buffer; nobody looks at its result.\<close>

definition fclose :: "FILE \<Rightarrow> FILE" where
  "fclose fp = snd (fflush fp)"

text \<open>
  The \<^verbatim>\<open>CodedOutputStream\<close> that \<^verbatim>\<open>coded_os_\<close> points to, over the
  \<^verbatim>\<open>CopyingOutputStreamAdaptor\<close> and the \<^verbatim>\<open>ProtobufFileWriter\<close> on \<^verbatim>\<open>report_fp_\<close>: the bytes
  in the adaptor's block, the size of a block, the file under the writer and the flag
  that \<^verbatim>\<open>HadError()\<close> reads. Written bytes fill the block; only when more bytes come than
  the block holds is the full block given to \<^verbatim>\<open>ProtobufFileWriter::Write\<close>, that is to
  \<^verbatim>\<open>fwrite\<close>. If that call fails the stream has an error and writes nothing more.
\<close>

record CodedOutputStream =
  os_buffer :: "byte list"
  os_block :: nat
  os_file :: FILE
  os_had_error :: bool

function os_flush_blocks :: "CodedOutputStream \<Rightarrow> CodedOutputStream" where
  "os_flush_blocks os =
     (if 0 < os_block os \<and> os_block os < length (os_buffer os) then
        (let (ok, fp) = fwrite (take (os_block os) (os_buffer os)) (os_file os)
         in if ok
            then os_flush_blocks
                   (os\<lparr>os_buffer := drop (os_block os) (os_buffer os), os_file := fp\<rparr>)
            else os\<lparr>os_buffer := [], os_file := fp, os_had_error := True\<rparr>)
      else os)"
  by pat_completeness auto
termination
  by (relation "measure (\<lambda>os. length (os_buffer os))") auto

declare os_flush_blocks.simps [simp del]

definition WriteRaw :: "byte list \<Rightarrow> CodedOutputStream \<Rightarrow> CodedOutputStream" where
  "WriteRaw bs os =
     (if os_had_error os then os
      else os_flush_blocks (os\<lparr>os_buffer := os_buffer os @ bs\<rparr>))"

text \<open>
  The destructor of the adaptor, which runs when \<^verbatim>\<open>Run\<close> returns: the bytes left in the
  block are given to \<^verbatim>\<open>fwrite\<close>, unless the stream has failed; the result is the file.
\<close>

definition os_close :: "CodedOutputStream \<Rightarrow> FILE" where
  "os_close os =
     (if os_had_error os \<or> os_buffer os = [] then os_file os
      else snd (fwrite (os_buffer os) (os_file os)))"

definition le32_bytes :: "u32 \<Rightarrow> byte list" where
  "le32_bytes v = [ucast v, ucast (drop_bit 8 v), ucast (drop_bit 16 v), ucast (drop_bit 24 v)]"

definition WriteLittleEndian32 :: "u32 \<Rightarrow> CodedOutputStream \<Rightarrow> CodedOutputStream" where
  "WriteLittleEndian32 v os = WriteRaw (le32_bytes v) os"

text \<open>
  \<^verbatim>\<open>CodedInputStream::ReadLittleEndian32\<close> on the bytes still unread: the value and the
  bytes after it, or \<open>None\<close> when fewer than four bytes are left.
\<close>

definition ReadLittleEndian32 :: "byte list \<Rightarrow> (u32 \<times> byte list) option" where
  "ReadLittleEndian32 bs =
     (case bs of
        b0 # b1 # b2 # b3 # rest \<Rightarrow>
          Some (ucast b0 OR push_bit 8 (ucast b1) OR push_bit 16 (ucast b2)
                  OR push_bit 24 (ucast b3), rest)
      | _ \<Rightarrow> None)"

text \<open>
  The protobuf library: the generated message code for \<^verbatim>\<open>proto::Record\<close> and the size of
  the adaptor's block. \<open>SerializeAsBytes\<close> gives the bytes that \<^verbatim>\<open>SerializeToCodedStream\<close>
  writes, whose number is \<^verbatim>\<open>ByteSize()\<close>; \<open>ParseFromBytes\<close> is \<^verbatim>\<open>ParseFromCodedStream\<close> on a
  stream limited to the given bytes, \<open>None\<close> when parsing fails, else the record and the
  number of bytes that were consumed.
\<close>

record protobuf_lib =
  SerializeAsBytes :: "proto_Record \<Rightarrow> byte list"
  ParseFromBytes :: "byte list \<Rightarrow> (proto_Record \<times> nat) option"
  kDefaultBlockSize :: nat

definition ByteSize :: "protobuf_lib \<Rightarrow> proto_Record \<Rightarrow> nat" where
  "ByteSize P m = length (SerializeAsBytes P m)"

definition SerializeToCodedStream ::
  "protobuf_lib \<Rightarrow> proto_Record \<Rightarrow> CodedOutputStream \<Rightarrow> bool \<times> CodedOutputStream" where
  "SerializeToCodedStream P m os =
     (let os1 = WriteRaw (SerializeAsBytes P m) os in (\<not> os_had_error os1, os1))"

section \<open>Binary mode: writing one sample\<close>

definition PrintSampleRecordInProtobuf ::
  "perf_context \<Rightarrow> ('tt, 'o, 'th, 'mp, 'sy) ThreadTree \<Rightarrow> protobuf_lib \<Rightarrow> bool \<Rightarrow> 'tt \<Rightarrow>
   SampleRecord \<Rightarrow> CodedOutputStream \<Rightarrow> bool \<times> CodedOutputStream \<times> log_entry list \<times> 'tt" where
  "PrintSampleRecordInProtobuf K T P show_callchain tt r os =
     (let (proto_record, lg, tt1) = build_proto_record K T show_callchain tt r;
          os1 = WriteLittleEndian32 (of_nat (ByteSize P proto_record)) os;
          (ok, os2) = SerializeToCodedStream P proto_record os1
      in if \<not> ok
         then (False, os2, lg @ [(ERROR, ''failed to write sample to protobuf'', No_arg)], tt1)
         else (True, os2, lg, tt1))"

section \<open>The decoder\<close>

text \<open>The lines 239 to 247 print for one decoded sample, numbered \<open>n\<close>.\<close>

definition dump_sample :: "nat \<Rightarrow> proto_Sample \<Rightarrow> print_call list" where
  "dump_sample n sample =
     [(0, L_sample_n n), (1, L_time (sample_time sample)), (1, L_callchain)] @
     concat (map (\<lambda>callchain. [(2, L_ip (cc_ip callchain)), (2, L_dso (cc_file callchain)),
                                (2, L_symbol (cc_symbol callchain))])
               (sample_callchain sample))"

text \<open>
  The \<^verbatim>\<open>while (true)\<close> loop of \<^verbatim>\<open>DumpProtobufReport\<close> on the bytes of the file still unread
  and the value of the static \<^verbatim>\<open>sample_count\<close>: the return value, the calls of
  \<^verbatim>\<open>PrintIndented\<close> in order, the log, and the static counter afterwards. The width of
  \<^verbatim>\<open>size_t\<close> is the type parameter \<open>'s\<close>.
\<close>

function DumpProtobufReport_loop ::
  "protobuf_lib \<Rightarrow> string \<Rightarrow> byte list \<Rightarrow> 's::len word \<Rightarrow>
   bool \<times> print_call list \<times> log_entry list \<times> 's word" where
  "DumpProtobufReport_loop P filename bs sample_count =
     (case ReadLittleEndian32 bs of
        None \<Rightarrow> (False, [], [(ERROR, ''failed to read '', Str_arg filename)], sample_count)
      | Some (sz, rest) \<Rightarrow>
          if sz = 0 then (True, [], [], sample_count)
          else
            (case ParseFromBytes P (take (unat sz) rest) of
               None \<Rightarrow>
                 (False, [], [(ERROR, ''failed to read '', Str_arg filename)], sample_count)
             | Some (proto_record, n) \<Rightarrow>
                 if record_type proto_record \<noteq> Record_Type_SAMPLE
                 then (False, [],
                       [(ERROR, ''unexpected record type '',
                         Type_arg (record_type proto_record))], sample_count)
                 else
                   (let count1 = sample_count + 1;
                        out = dump_sample (unat count1) (record_sample proto_record);
                        (ret, out', lg, count2) =
                          DumpProtobufReport_loop P filename
                            (drop (min n (unat sz)) rest) count1
                    in (ret, out @ out', lg, count2))))"
  by pat_completeness auto
termination
proof (relation "measure (\<lambda>(P, filename, bs, sample_count). length bs)")
  show "wf (measure (\<lambda>(P, filename, bs, sample_count). length bs))"
    by simp
next
  fix P :: protobuf_lib and filename :: string and bs :: "byte list"
    and sample_count :: "'s word" and x2 sz rest
  assume "ReadLittleEndian32 bs = Some x2" and "(sz, rest) = x2"
  then have "length rest < length bs"
    by (auto simp: ReadLittleEndian32_def split: list.splits)
  then show "\<And>n count1. ((P, filename, drop (min n (unat sz)) rest, count1),
                 (P, filename, bs, sample_count))
               \<in> measure (\<lambda>(P, filename, bs, sample_count). length bs)"
    by simp
qed

declare DumpProtobufReport_loop.simps [simp del]

section \<open>The command\<close>

text \<open>
  The fields of \<^verbatim>\<open>ReportSampleCommand\<close>, named without the underscore at their end.
  \<^verbatim>\<open>coded_os_\<close> holds the report file together with the block and the error flag of the
  coded stream over it; \<^verbatim>\<open>report_fp_\<close> is the file of that field.
  The type of the \<^verbatim>\<open>size_t\<close> counter is the parameter \<open>'c\<close>, a word of the platform's width
  wherever the command runs.
\<close>

record ('tt, 'c) ReportSampleCommand =
  record_filename :: string
  dump_protobuf_report_file :: string
  show_callchain :: bool
  use_protobuf :: bool
  thread_tree :: 'tt
  report_filename :: string
  coded_os :: CodedOutputStream
  sample_count :: 'c

definition report_fp :: "('tt, 's word) ReportSampleCommand \<Rightarrow> FILE" where
  "report_fp cmd = os_file (coded_os cmd)"

text \<open>
  The constructor, on a new thread tree. No report file is open yet: the null
  \<^verbatim>\<open>report_fp_\<close> and \<^verbatim>\<open>coded_os_\<close> are an empty file that accepts no write.
\<close>

definition new_ReportSampleCommand :: "'tt \<Rightarrow> ('tt, 's::len word) ReportSampleCommand" where
  "new_ReportSampleCommand tt =
     \<lparr>record_filename = ''perf.data'', dump_protobuf_report_file = [],
      show_callchain = False, use_protobuf = False, thread_tree = tt,
      report_filename = [],
      coded_os = \<lparr>os_buffer = [], os_block = 0,
                   os_file = \<lparr>f_text = [], f_bytes = [], f_pending = [], f_bufsize = 0,
                               f_room = Some 0, f_error = False\<rparr>,
                   os_had_error = False\<rparr>,
      sample_count = 0\<rparr>"

text \<open>
  Modelled from the spec: \<^verbatim>\<open>NextArgumentOrError\<close> and \<^verbatim>\<open>ReportUnknownOption\<close> are members of
  \<^verbatim>\<open>Command\<close> (\<^verbatim>\<open>command.h\<close>), which is not among the sources. By the spec's command-line
  surface \<^verbatim>\<open>-i\<close>, \<^verbatim>\<open>-o\<close> and \<^verbatim>\<open>--dump-protobuf-report\<close> take the next argument as their
  file, and bad options are reported and fail the run: with no argument left the error
  is logged and the result is false, else the index moves to the argument.
\<close>

definition NextArgumentOrError_log :: "string \<Rightarrow> log_entry" where
  "NextArgumentOrError_log opt = (ERROR, ''No argument following option'', Str_arg opt)"

definition ReportUnknownOption_log :: "string \<Rightarrow> log_entry" where
  "ReportUnknownOption_log opt = (ERROR, ''Unknown option'', Str_arg opt)"

text \<open>The \<^verbatim>\<open>for\<close> loop of \<^verbatim>\<open>ParseOptions\<close>, on the arguments from index \<^verbatim>\<open>i\<close> on.\<close>

fun ParseOptions_loop ::
  "string list \<Rightarrow> ('tt, 's word) ReportSampleCommand \<Rightarrow>
   bool \<times> ('tt, 's word) ReportSampleCommand \<times> log_entry list" where
  "ParseOptions_loop [] cmd = (True, cmd, [])"
| "ParseOptions_loop (a # args) cmd =
     (if a = ''--dump-protobuf-report'' then
        (case args of
           [] \<Rightarrow> (False, cmd, [NextArgumentOrError_log a])
         | f # args' \<Rightarrow> ParseOptions_loop args' (cmd\<lparr>dump_protobuf_report_file := f\<rparr>))
      else if a = ''-i'' then
        (case args of
           [] \<Rightarrow> (False, cmd, [NextArgumentOrError_log a])
         | f # args' \<Rightarrow> ParseOptions_loop args' (cmd\<lparr>record_filename := f\<rparr>))
      else if a = ''-o'' then
        (case args of
           [] \<Rightarrow> (False, cmd, [NextArgumentOrError_log a])
         | f # args' \<Rightarrow> ParseOptions_loop args' (cmd\<lparr>report_filename := f\<rparr>))
      else if a = ''--protobuf'' then ParseOptions_loop args (cmd\<lparr>use_protobuf := True\<rparr>)
      else if a = ''--show-callchain'' then
        ParseOptions_loop args (cmd\<lparr>show_callchain := True\<rparr>)
      else (False, cmd, [ReportUnknownOption_log a]))"

definition ParseOptions ::
  "string list \<Rightarrow> ('tt, 's word) ReportSampleCommand \<Rightarrow>
   bool \<times> ('tt, 's word) ReportSampleCommand \<times> log_entry list" where
  "ParseOptions args cmd =
     (let (ok, cmd1, lg) = ParseOptions_loop args cmd
      in if \<not> ok then (False, cmd1, lg)
         else if use_protobuf cmd1 \<and> report_filename cmd1 = []
         then (False, cmd1,
               lg @ [(ERROR, ''please specify a report filename to write protobuf data'',
                      No_arg)])
         else (True, cmd1, lg))"

definition ProcessRecord ::
  "perf_context \<Rightarrow> ('tt, 'o, 'th, 'mp, 'sy) ThreadTree \<Rightarrow> protobuf_lib \<Rightarrow>
   ('tt, 's::len word) ReportSampleCommand \<Rightarrow> 'o Record \<Rightarrow>
   bool \<times> ('tt, 's word) ReportSampleCommand \<times> log_entry list" where
  "ProcessRecord K T P cmd record =
     (let cmd1 = cmd\<lparr>thread_tree := Update T record (thread_tree cmd)\<rparr>
      in case record of
           Sample_Record r \<Rightarrow>
             (let cmd2 = cmd1\<lparr>sample_count := sample_count cmd1 + 1\<rparr>
              in if use_protobuf cmd2 then
                   (let (ok, os, lg, tt) =
                          PrintSampleRecordInProtobuf K T P (show_callchain cmd2)
                            (thread_tree cmd2) r (coded_os cmd2)
                    in (ok, cmd2\<lparr>thread_tree := tt, coded_os := os\<rparr>, lg))
                 else
                   (let (ok, out, lg, tt) =
                          PrintSampleRecord K T (show_callchain cmd2) (thread_tree cmd2) r
                    in (ok,
                        cmd2\<lparr>thread_tree := tt,
                             coded_os := (coded_os cmd2)
                               \<lparr>os_file := foldl FprintIndented (report_fp cmd2) out\<rparr>\<rparr>,
                        lg)))
         | Other_Record x \<Rightarrow> (True, cmd1, []))"

text \<open>
  Modelled from the spec: \<^verbatim>\<open>RecordFileReader\<close> (\<^verbatim>\<open>record_file.h\<close>) is not among the sources.
  By the spec the capture file is a sequence of decoded records, each handed to the
  driver in turn, and the run fails fast on the first error: \<^verbatim>\<open>ReadDataSection\<close> calls
  the callback on the records in order, stops with false at the first record whose
  callback returns false, and after the last record returns whether reading the file
  itself went well (the second component of the reader).
\<close>

fun ReadDataSection_loop ::
  "perf_context \<Rightarrow> ('tt, 'o, 'th, 'mp, 'sy) ThreadTree \<Rightarrow> protobuf_lib \<Rightarrow>
   ('tt, 's::len word) ReportSampleCommand \<Rightarrow> 'o Record list \<Rightarrow>
   bool \<times> ('tt, 's word) ReportSampleCommand \<times> log_entry list" where
  "ReadDataSection_loop K T P cmd [] = (True, cmd, [])"
| "ReadDataSection_loop K T P cmd (record # records) =
     (let (ok, cmd1, lg) = ProcessRecord K T P cmd record
      in if \<not> ok then (False, cmd1, lg)
         else (let (ok2, cmd2, lg2) = ReadDataSection_loop K T P cmd1 records
               in (ok2, cmd2, lg @ lg2)))"

definition ReadDataSection ::
  "perf_context \<Rightarrow> ('tt, 'o, 'th, 'mp, 'sy) ThreadTree \<Rightarrow> protobuf_lib \<Rightarrow>
   ('tt, 's::len word) ReportSampleCommand \<Rightarrow> 'o Record list \<times> bool \<Rightarrow>
   bool \<times> ('tt, 's word) ReportSampleCommand \<times> log_entry list" where
  "ReadDataSection K T P cmd reader =
     (let (ok, cmd1, lg) = ReadDataSection_loop K T P cmd (fst reader)
      in (ok \<and> snd reader, cmd1, lg))"

subsection \<open>The process and its files\<close>

text \<open>
  What a run leaves behind: the log, the paths given to
  \<^verbatim>\<open>RecordFileReader::CreateInstance\<close> and \<^verbatim>\<open>fopen\<close> in the order of the calls, standard
  output, the report file if one was opened, and the static \<^verbatim>\<open>sample_count\<close> of
  \<^verbatim>\<open>DumpProtobufReport\<close>.
\<close>

record 'c world =
  w_log :: "log_entry list"
  w_opened :: "string list"
  w_stdout :: FILE
  w_report :: "FILE option"
  w_sample_count :: 'c

text \<open>
  The files the run finds: the records of a capture file with the outcome of reading
  it (\<open>None\<close>: \<^verbatim>\<open>CreateInstance\<close> returns null), for a new report file the size of its
  stdio buffer and the number of lines or bytes it takes (\<open>None\<close>: \<^verbatim>\<open>fopen\<close> for writing
  fails), and the bytes of a file opened with \<^verbatim>\<open>"rb"\<close> (\<open>None\<close>: \<^verbatim>\<open>fopen\<close> fails).
\<close>

record 'o file_system =
  CreateInstance :: "string \<Rightarrow> ('o Record list \<times> bool) option"
  fopen_w :: "string \<Rightarrow> (nat \<times> nat option) option"
  fopen_rb :: "string \<Rightarrow> byte list option"

definition DumpProtobufReport ::
  "protobuf_lib \<Rightarrow> 'o file_system \<Rightarrow> string \<Rightarrow> 's::len word world \<Rightarrow> bool \<times> 's word world" where
  "DumpProtobufReport P F filename w =
     (let w1 = w\<lparr>w_opened := w_opened w @ [filename]\<rparr>
      in case fopen_rb F filename of
           None \<Rightarrow>
             (False, w1\<lparr>w_log := w_log w1 @ [(ERROR, ''failed to open '', Str_arg filename)]\<rparr>)
         | Some bs \<Rightarrow>
             (let (ret, out, lg, n) = DumpProtobufReport_loop P filename bs (w_sample_count w1)
              in (ret, w1\<lparr>w_log := w_log w1 @ lg,
                          w_stdout := foldl FprintIndented (w_stdout w1) out,
                          w_sample_count := n\<rparr>)))"

text \<open>
  What the destructors leave when \<^verbatim>\<open>Run\<close> returns after step 3: with no report file
  name the writes are on standard output; else the report file is closed, in binary
  mode after the adaptor has given it the bytes left in its block. Nothing checks
  these last writes.
\<close>

definition leave_report :: "('tt, 's word) ReportSampleCommand \<Rightarrow> 's word world \<Rightarrow> 's word world" where
  "leave_report cmd w =
     (if report_filename cmd = [] then w\<lparr>w_stdout := report_fp cmd\<rparr>
      else w\<lparr>w_report :=
             Some (fclose (if use_protobuf cmd then os_close (coded_os cmd)
                           else report_fp cmd))\<rparr>)"

text \<open>Steps 4 and after of \<^verbatim>\<open>Run\<close>, lines 145 to 169, once the report stream is set up.\<close>

definition Run_report ::
  "perf_context \<Rightarrow> ('tt, 'o, 'th, 'mp, 'sy) ThreadTree \<Rightarrow> protobuf_lib \<Rightarrow>
   ('tt, 's::len word) ReportSampleCommand \<Rightarrow> 'o Record list \<times> bool \<Rightarrow> 's word world \<Rightarrow>
   bool \<times> 's word world" where
  "Run_report K T P cmd reader w =
     (let (ok, cmd1, lg) = ReadDataSection K T P cmd reader;
          w1 = w\<lparr>w_log := w_log w @ lg\<rparr>
      in if \<not> ok then (False, leave_report cmd1 w1)
         else
           (let w2 = w1\<lparr>w_log := w_log w1 @
                       [(INFO, ''report %zu samples in all.'',
                         Size_arg (unat (sample_count cmd1)))]\<rparr>
            in if use_protobuf cmd1 then
                 (let cmd2 = cmd1\<lparr>coded_os := WriteLittleEndian32 0 (coded_os cmd1)\<rparr>
                  in if os_had_error (coded_os cmd2)
                     then (False, leave_report cmd2
                             (w2\<lparr>w_log := w_log w2 @
                                   [(ERROR, ''print protobuf report failed'', No_arg)]\<rparr>))
                     else if f_error (report_fp cmd2)
                     then (False, leave_report cmd2
                             (w2\<lparr>w_log := w_log w2 @
                                   [(ERROR, ''print report failed'', No_arg)]\<rparr>))
                     else (True, leave_report cmd2 w2))
               else
                 (let cmd2 = cmd1\<lparr>coded_os :=
                               (coded_os cmd1)\<lparr>os_file := snd (fflush (report_fp cmd1))\<rparr>\<rparr>
                  in if f_error (report_fp cmd2)
                     then (False, leave_report cmd2
                             (w2\<lparr>w_log := w_log w2 @
                                   [(ERROR, ''print report failed'', No_arg)]\<rparr>))
                     else (True, leave_report cmd2 w2))))"

definition Run ::
  "perf_context \<Rightarrow> ('tt, 'o, 'th, 'mp, 'sy) ThreadTree \<Rightarrow> protobuf_lib \<Rightarrow> 'o file_system \<Rightarrow>
   ('tt, 's::len word) ReportSampleCommand \<Rightarrow> string list \<Rightarrow> 's word world \<Rightarrow> bool \<times> 's word world" where
  "Run K T P F cmd0 args w =
     (let (ok, cmd, lg) = ParseOptions args cmd0;
          w1 = w\<lparr>w_log := w_log w @ lg\<rparr>
      in if \<not> ok then (False, w1)
         else if dump_protobuf_report_file cmd \<noteq> []
         then DumpProtobufReport P F (dump_protobuf_report_file cmd) w1
         else
           (let w2 = w1\<lparr>w_opened := w_opened w1 @ [record_filename cmd]\<rparr>
            in case CreateInstance F (record_filename cmd) of
                 None \<Rightarrow> (False, w2)
               | Some reader \<Rightarrow>
                   if report_filename cmd \<noteq> [] then
                     (let w3 = w2\<lparr>w_opened := w_opened w2 @ [report_filename cmd]\<rparr>
                      in case fopen_w F (report_filename cmd) of
                           None \<Rightarrow>
                             (False, w3\<lparr>w_log := w_log w3 @
                                [(ERROR, ''failed to open '', Str_arg (report_filename cmd))]\<rparr>)
                         | Some (bufsize, room) \<Rightarrow>
                             Run_report K T P
                               (cmd\<lparr>coded_os :=
                                  \<lparr>os_buffer = [], os_block = kDefaultBlockSize P,
                                   os_file = \<lparr>f_text = [], f_bytes = [], f_pending = [],
                                              f_bufsize = bufsize, f_room = room,
                                              f_error = False\<rparr>,
                                   os_had_error = False\<rparr>\<rparr>)
                               reader w3)
                   else
                     Run_report K T P
                       (cmd\<lparr>coded_os :=
                          \<lparr>os_buffer = [], os_block = kDefaultBlockSize P,
                           os_file = w_stdout w2, os_had_error = False\<rparr>\<rparr>)
                       reader w2))"

section \<open>Notions of the specification\<close>

subsection \<open>Resolved frames\<close>

text \<open>
  An address \<open>v\<close> resolved under the context \<open>k\<close> (true: kernel) for a thread: the entry
  with the address, the demangled name of the symbol found and the path of the map's
  dso.
\<close>

definition resolve_frame ::
  "('tt, 'o, 'th, 'mp, 'sy) ThreadTree \<Rightarrow> 'tt \<Rightarrow> 'th \<Rightarrow> u64 \<Rightarrow> bool \<Rightarrow> Sample_CallChainEntry" where
  "resolve_frame T tt thread v k =
     \<lparr>cc_ip = v,
      cc_symbol = DemangledName T (FindSymbol T tt (FindMap T tt thread v k) v),
      cc_file = dso_Path T (FindMap T tt thread v k)\<rparr>"

text \<open>The leaf frame of a sample: its own instruction pointer under its own flag.\<close>

definition leaf_frame ::
  "('tt, 'o, 'th, 'mp, 'sy) ThreadTree \<Rightarrow> 'tt \<Rightarrow> SampleRecord \<Rightarrow> Sample_CallChainEntry" where
  "leaf_frame T tt r =
     (let (thread, tt1) = FindThreadOrNew T tt (tid_data_pid r) (tid_data_tid r)
      in resolve_frame T tt1 thread (ip_data_ip r) (InKernel r))"

text \<open>The three lines that show a frame, at an indentation level.\<close>

definition frame_lines :: "nat \<Rightarrow> Sample_CallChainEntry \<Rightarrow> print_call list" where
  "frame_lines n e = [(n, L_ip (cc_ip e)), (n, L_dso (cc_file e)), (n, L_symbol (cc_symbol e))]"

text \<open>
  The lines of a printed block that show data of the sample: all but the header lines
  \<^verbatim>\<open>sample:\<close>, \<^verbatim>\<open>sample N:\<close> and \<^verbatim>\<open>callchain:\<close>, without their indentation.
\<close>

fun is_header :: "text_line \<Rightarrow> bool" where
  "is_header L_sample = True"
| "is_header (L_sample_n n) = True"
| "is_header L_callchain = True"
| "is_header l = False"

definition content_lines :: "print_call list \<Rightarrow> text_line list" where
  "content_lines out = filter (\<lambda>l. \<not> is_header l) (map snd out)"

subsection \<open>The call-chain walk in the words of the specification\<close>

text \<open>
  The markers are sentinel values: at or above the threshold, and distinct (they are
  the labels of one \<^verbatim>\<open>switch\<close>).
\<close>

definition markers_are_sentinels :: "perf_context \<Rightarrow> bool" where
  "markers_are_sentinels K =
     (PERF_CONTEXT_MAX K \<le> PERF_CONTEXT_KERNEL K \<and> PERF_CONTEXT_MAX K \<le> PERF_CONTEXT_USER K
      \<and> PERF_CONTEXT_KERNEL K \<noteq> PERF_CONTEXT_USER K)"

text \<open>
  The context after a value: the kernel marker sets it to kernel, the user marker to
  user, any other value leaves it.
\<close>

definition marker_context :: "perf_context \<Rightarrow> bool \<Rightarrow> u64 \<Rightarrow> bool" where
  "marker_context K k v =
     (if v = PERF_CONTEXT_KERNEL K then True
      else if v = PERF_CONTEXT_USER K then False
      else k)"

text \<open>Every value of the chain with the context current when the walk reaches it.\<close>

fun contexts_in_walk :: "perf_context \<Rightarrow> bool \<Rightarrow> u64 list \<Rightarrow> (u64 \<times> bool) list" where
  "contexts_in_walk K k [] = []"
| "contexts_in_walk K k (v # vs) = (v, k) # contexts_in_walk K (marker_context K k v) vs"

text \<open>The values below the sentinel threshold: the genuine addresses.\<close>

definition below_threshold :: "perf_context \<Rightarrow> (u64 \<times> bool) list \<Rightarrow> (u64 \<times> bool) list" where
  "below_threshold K xs = filter (\<lambda>x. fst x < PERF_CONTEXT_MAX K) xs"

text \<open>Leaf deduplication: the first genuine address is dropped if it is the leaf address.\<close>

definition drop_leaf_duplicate :: "u64 \<Rightarrow> (u64 \<times> bool) list \<Rightarrow> (u64 \<times> bool) list" where
  "drop_leaf_duplicate leaf xs =
     (case xs of [] \<Rightarrow> [] | x # rest \<Rightarrow> if fst x = leaf then rest else xs)"

definition classify_callchain ::
  "perf_context \<Rightarrow> u64 \<Rightarrow> bool \<Rightarrow> u64 list \<Rightarrow> (u64 \<times> bool) list" where
  "classify_callchain K leaf k vs =
     drop_leaf_duplicate leaf (below_threshold K (contexts_in_walk K k vs))"

text \<open>The sentinel values that are no marker, each logged once.\<close>

definition unexpected_contexts :: "perf_context \<Rightarrow> u64 list \<Rightarrow> log_entry list" where
  "unexpected_contexts K vs =
     map (\<lambda>v. (DEBUG, ''Unexpected perf_context in callchain: '', Hex_arg v))
       (filter (\<lambda>v. PERF_CONTEXT_MAX K \<le> v \<and> v \<noteq> PERF_CONTEXT_KERNEL K
                     \<and> v \<noteq> PERF_CONTEXT_USER K) vs)"

text \<open>
  The walk as one recursion over the chain, with the context \<open>k\<close> and the flag
  \<open>first\<close> of the loops: the addresses that get a frame, each with its context.
\<close>

fun walk :: "perf_context \<Rightarrow> u64 \<Rightarrow> bool \<Rightarrow> bool \<Rightarrow> u64 list \<Rightarrow> (u64 \<times> bool) list" where
  "walk K leaf k first [] = []"
| "walk K leaf k first (v # vs) =
     (if PERF_CONTEXT_MAX K \<le> v then
        (if v = PERF_CONTEXT_KERNEL K then walk K leaf True first vs
         else if v = PERF_CONTEXT_USER K then walk K leaf False first vs
         else walk K leaf k first vs)
      else if first \<and> v = leaf then walk K leaf k False vs
      else (v, k) # walk K leaf k False vs)"

subsection \<open>The binary stream\<close>

text \<open>
  The wire format of the specification: each record as a little-endian 32-bit length
  and the payload of that length; a length of zero terminates the stream.
\<close>

definition framed :: "protobuf_lib \<Rightarrow> proto_Record list \<Rightarrow> byte list" where
  "framed P ms =
     concat (map (\<lambda>m. le32_bytes (of_nat (ByteSize P m)) @ SerializeAsBytes P m) ms)"

text \<open>
  The library round-trips a record: its bytes parse back to it and are consumed whole,
  and their number is positive and fits the 32-bit length.
\<close>

definition round_trips :: "protobuf_lib \<Rightarrow> proto_Record \<Rightarrow> bool" where
  "round_trips P m =
     (ParseFromBytes P (SerializeAsBytes P m) = Some (m, ByteSize P m)
      \<and> 0 < ByteSize P m \<and> ByteSize P m < 2 ^ 32)"

text \<open>
  The records that a run in binary mode builds for the records of the capture file, in
  their order: every record updates the thread tree, every sample gives one record.
\<close>

fun written_records ::
  "perf_context \<Rightarrow> ('tt, 'o, 'th, 'mp, 'sy) ThreadTree \<Rightarrow> bool \<Rightarrow> 'tt \<Rightarrow> 'o Record list \<Rightarrow>
   proto_Record list" where
  "written_records K T sc tt [] = []"
| "written_records K T sc tt (Other_Record x # records) =
     written_records K T sc (Update T (Other_Record x) tt) records"
| "written_records K T sc tt (Sample_Record r # records) =
     (let (m, lg, tt1) = build_proto_record K T sc (Update T (Sample_Record r) tt) r
      in m # written_records K T sc tt1 records)"

text \<open>The sample records among the records of a capture file, in their order.\<close>

fun sample_records :: "'o Record list \<Rightarrow> SampleRecord list" where
  "sample_records [] = []"
| "sample_records (Sample_Record r # records) = r # sample_records records"
| "sample_records (Other_Record x # records) = sample_records records"

text \<open>The blocks of the samples \<open>ss\<close>, numbered from \<open>c + 1\<close> on in the width of the counter.\<close>

fun dump_samples :: "'s::len word \<Rightarrow> proto_Sample list \<Rightarrow> print_call list" where
  "dump_samples c [] = []"
| "dump_samples c (s # ss) = dump_sample (unat (c + 1)) s @ dump_samples (c + 1) ss"

text \<open>
  The streams at which the loop of the decoder reads a length prefix: the stream it
  starts on, and the stream after each sample record that it has printed.
\<close>

inductive loop_head :: "protobuf_lib \<Rightarrow> byte list \<Rightarrow> byte list \<Rightarrow> bool"
  for P :: protobuf_lib and bs :: "byte list" where
  loop_head_first: "loop_head P bs bs"
| loop_head_next:
    "loop_head P bs bs1 \<Longrightarrow> ReadLittleEndian32 bs1 = Some (sz, rest) \<Longrightarrow> sz \<noteq> 0 \<Longrightarrow>
     ParseFromBytes P (take (unat sz) rest) = Some (m, n) \<Longrightarrow>
     record_type m = Record_Type_SAMPLE \<Longrightarrow>
     loop_head P bs (drop (min n (unat sz)) rest)"

text \<open>The number of blocks in printed lines: the lines at indentation 0.\<close>

definition sample_blocks :: "print_call list \<Rightarrow> nat" where
  "sample_blocks out = length (filter (\<lambda>c. fst c = 0) out)"

text \<open>
  The thread that \<^verbatim>\<open>FindThreadOrNew\<close> gives for a sample, and the thread tree after that
  call.
\<close>

definition sample_thread ::
  "('tt, 'o, 'th, 'mp, 'sy) ThreadTree \<Rightarrow> 'tt \<Rightarrow> SampleRecord \<Rightarrow> 'th" where
  "sample_thread T tt r = fst (FindThreadOrNew T tt (tid_data_pid r) (tid_data_tid r))"

definition tree_after_find ::
  "('tt, 'o, 'th, 'mp, 'sy) ThreadTree \<Rightarrow> 'tt \<Rightarrow> SampleRecord \<Rightarrow> 'tt" where
  "tree_after_find T tt r = snd (FindThreadOrNew T tt (tid_data_pid r) (tid_data_tid r))"

text \<open>The frames of the record built for a sample, and the lines of its text block.\<close>

definition pb_frames ::
  "perf_context \<Rightarrow> ('tt, 'o, 'th, 'mp, 'sy) ThreadTree \<Rightarrow> bool \<Rightarrow> 'tt \<Rightarrow> SampleRecord \<Rightarrow>
   Sample_CallChainEntry list" where
  "pb_frames K T sc tt r = sample_callchain (record_sample (fst (build_proto_record K T sc tt r)))"

definition text_lines ::
  "perf_context \<Rightarrow> ('tt, 'o, 'th, 'mp, 'sy) ThreadTree \<Rightarrow> bool \<Rightarrow> 'tt \<Rightarrow> SampleRecord \<Rightarrow>
   print_call list" where
  "text_lines K T sc tt r = fst (snd (PrintSampleRecord K T sc tt r))"

section \<open>Example values\<close>

text \<open>The values of the three constants in \<^verbatim>\<open>linux/perf_event.h\<close>: -4095, -128 and -512.\<close>

definition linux_perf_context :: perf_context where
  "linux_perf_context =
     \<lparr>PERF_CONTEXT_MAX = 0xFFFFFFFFFFFFF001, PERF_CONTEXT_KERNEL = 0xFFFFFFFFFFFFFF80,
      PERF_CONTEXT_USER = 0xFFFFFFFFFFFFFE00\<rparr>"

text \<open>
  A small thread tree: its state counts the updates, a thread is its tid, a map is the
  context it was looked up in, and a symbol is its address.
\<close>

definition example_tree :: "(nat, unit, u32, bool, u64) ThreadTree" where
  "example_tree =
     \<lparr>Update = (\<lambda>record n. Suc n),
      FindThreadOrNew = (\<lambda>n pid tid. (tid, n)),
      FindMap = (\<lambda>n thread v k. k),
      FindSymbol = (\<lambda>n mp v. v),
      dso_Path = (\<lambda>k. if k then ''[kernel.kallsyms]'' else ''libfoo.so''),
      DemangledName = (\<lambda>v. if v = 0x1000 then ''foo'' else ''unknown'')\<rparr>"

definition example_sample :: "u64 list \<Rightarrow> SampleRecord" where
  "example_sample vs =
     \<lparr>tid_data_pid = 100, tid_data_tid = 100, time_data_time = 7, ip_data_ip = 0x1000,
      callchain_data_ips = vs, InKernel = False\<rparr>"

text \<open>
  A small message library: a record is two bytes, its type tag (1 for a sample) and the
  low byte of its time; every record parsed has the one frame of \<open>foo\<close>. The block of
  the adaptor has 8192 bytes, as in the protobuf library.
\<close>

definition example_protobuf :: protobuf_lib where
  "example_protobuf =
     \<lparr>SerializeAsBytes =
        (\<lambda>m. [case record_type m of Record_Type_SAMPLE \<Rightarrow> 1 | Record_Type_other t \<Rightarrow> 2,
              ucast (sample_time (record_sample m))]),
      ParseFromBytes =
        (\<lambda>bs. case bs of
           [t, b] \<Rightarrow>
             Some (\<lparr>record_type = (if t = 1 then Record_Type_SAMPLE
                                     else Record_Type_other (uint t)),
                    record_sample =
                      \<lparr>sample_time = ucast b,
                       sample_callchain =
                         [\<lparr>cc_ip = 0x1000, cc_symbol = ''foo'', cc_file = ''libfoo.so''\<rparr>]\<rparr>\<rparr>,
                   2)
         | _ \<Rightarrow> None),
      kDefaultBlockSize = 8192\<rparr>"

text \<open>
  Files: a capture file \<^verbatim>\<open>perf.data\<close> of two samples around a record of another type,
  a capture file \<^verbatim>\<open>chain.data\<close> of two samples, the first with a call-chain into the
  kernel, and a capture file \<^verbatim>\<open>big.data\<close> of 1365 samples; any report file can be opened, with
  a stdio buffer of 4096 bytes, and takes every byte, but \<^verbatim>\<open>full.pb\<close> takes none;
  \<^verbatim>\<open>report.pb\<close> holds a stream of two samples with its terminator, \<^verbatim>\<open>cut.pb\<close> the same
  stream without the terminator, \<^verbatim>\<open>other.pb\<close> a sample and a record of another type.
\<close>

definition example_files :: "unit file_system" where
  "example_files =
     \<lparr>CreateInstance =
        (\<lambda>name. if name = ''perf.data''
                 then Some ([Sample_Record (example_sample [0x2000]), Other_Record (),
                             Sample_Record (example_sample [])], True)
                 else if name = ''chain.data''
                 then Some ([Sample_Record
                               (example_sample [0x2000, 0xFFFFFFFFFFFFFF80, 0x3000]),
                             Sample_Record (example_sample [])], True)
                 else if name = ''big.data''
                 then Some (replicate 1365 (Sample_Record (example_sample [])), True)
                 else None),
      fopen_w = (\<lambda>name. if name = ''full.pb'' then Some (4096, Some 0) else Some (4096, None)),
      fopen_rb =
        (\<lambda>name. if name = ''report.pb'' then Some [2, 0, 0, 0, 1, 7, 2, 0, 0, 0, 1, 7, 0, 0, 0, 0]
                 else if name = ''cut.pb'' then Some [2, 0, 0, 0, 1, 7, 2, 0, 0, 0, 1, 7]
                 else if name = ''other.pb'' then Some [2, 0, 0, 0, 1, 7, 2, 0, 0, 0, 2, 7, 0, 0, 0, 0]
                 else None)\<rparr>"

text \<open>A process at its start: nothing logged, opened or printed, the static counter zero.\<close>

definition new_world :: "'s::len word world" where
  "new_world =
     \<lparr>w_log = [], w_opened = [],
      w_stdout = \<lparr>f_text = [], f_bytes = [], f_pending = [], f_bufsize = 0, f_room = None,
                   f_error = False\<rparr>,
      w_report = None, w_sample_count = 0\<rparr>"

subsection \<open>Leaf deduplication on the addresses alone\<close>

text \<open>The values of a raw call-chain that are no sentinels, in their order.\<close>

definition genuine_addresses :: "perf_context \<Rightarrow> u64 list \<Rightarrow> u64 list" where
  "genuine_addresses K vs = filter (\<lambda>v. v < PERF_CONTEXT_MAX K) vs"

text \<open>
  The skip of the specification: only the first of the addresses is compared with the
  leaf address, and dropped if equal; every later one stays.
\<close>

definition skip_first_if_leaf :: "u64 \<Rightarrow> u64 list \<Rightarrow> u64 list" where
  "skip_first_if_leaf leaf vs =
     (case vs of [] \<Rightarrow> [] | v # rest \<Rightarrow> if v = leaf then rest else v # rest)"

text \<open>The addresses of the \<^verbatim>\<open>ip:\<close> lines among printed lines, in their order.\<close>

fun printed_ips :: "print_call list \<Rightarrow> u64 list" where
  "printed_ips [] = []"
| "printed_ips ((n, L_ip v) # out) = v # printed_ips out"
| "printed_ips (c # out) = printed_ips out"

text \<open>
  The bytes a coded stream holds: those that have reached its file and those still in
  the buffer of stdio or in the adaptor's block, in the order they were written.
\<close>

definition os_written :: "CodedOutputStream \<Rightarrow> byte list" where
  "os_written os = f_bytes (os_file os) @ f_pending (os_file os) @ os_buffer os"

text \<open>
  A message library that writes the frames too: after the type tag and the low byte of
  the time, each frame is two bytes, its address in units of 0x1000 and 0 for the module
  \<open>libfoo.so\<close> or 1 for the kernel; the symbol is \<open>foo\<close> at address 0x1000.
\<close>

definition example_write_frame :: "Sample_CallChainEntry \<Rightarrow> byte list" where
  "example_write_frame e =
     [ucast (drop_bit 12 (cc_ip e)), if cc_file e = ''libfoo.so'' then 0 else 1]"

fun example_read_frames :: "byte list \<Rightarrow> Sample_CallChainEntry list" where
  "example_read_frames (k # f # bs) =
     \<lparr>cc_ip = push_bit 12 (ucast k),
      cc_symbol = (if k = 1 then ''foo'' else ''unknown''),
      cc_file = (if f = 0 then ''libfoo.so'' else ''[kernel.kallsyms]'')\<rparr> #
     example_read_frames bs"
| "example_read_frames bs = []"

definition example_frames_protobuf :: protobuf_lib where
  "example_frames_protobuf =
     \<lparr>SerializeAsBytes =
        (\<lambda>m. [case record_type m of Record_Type_SAMPLE \<Rightarrow> 1 | Record_Type_other t \<Rightarrow> 2,
              ucast (sample_time (record_sample m))] @
             concat (map example_write_frame (sample_callchain (record_sample m)))),
      ParseFromBytes =
        (\<lambda>bs. case bs of
           t # b # fs \<Rightarrow>
             Some (\<lparr>record_type = (if t = 1 then Record_Type_SAMPLE
                                     else Record_Type_other (uint t)),
                    record_sample =
                      \<lparr>sample_time = ucast b, sample_callchain = example_read_frames fs\<rparr>\<rparr>,
                   length bs)
         | _ \<Rightarrow> None),
      kDefaultBlockSize = 8192\<rparr>"

text \<open>
  A coded stream without an error whose file takes every byte and has no error.
\<close>

definition unlimited :: "CodedOutputStream \<Rightarrow> bool" where
  "unlimited os =
     (\<not> os_had_error os \<and> f_room (os_file os) = None \<and> \<not> f_error (os_file os))"

text \<open>The lines that show a sample: its time, then address, module and symbol of each frame.\<close>

definition sample_content :: "proto_Sample \<Rightarrow> text_line list" where
  "sample_content s =
     L_time (sample_time s) #
     concat (map (\<lambda>e. [L_ip (cc_ip e), L_dso (cc_file e), L_symbol (cc_symbol e)])
               (sample_callchain s))"

section \<open>Properties of the call-chain walk\<close>

lemma pb_loop_sample:
  "pb_sample (foldl (pb_loop_body K T tt thread r) st vs) =
     (pb_sample st)\<lparr>sample_callchain := sample_callchain (pb_sample st) @
        map (\<lambda>x. resolve_frame T tt thread (fst x) (snd x))
          (walk K (ip_data_ip r) (pb_in_kernel st) (pb_first_ip st) vs)\<rparr>"
  by (induction vs arbitrary: st)
     (simp_all add: pb_loop_body_def add_callchain_def resolve_frame_def Let_def)

lemma pb_loop_log:
  "pb_log (foldl (pb_loop_body K T tt thread r) st vs) = pb_log st @ unexpected_contexts K vs"
  by (induction vs arbitrary: st)
     (simp_all add: pb_loop_body_def unexpected_contexts_def Let_def)

lemma text_loop_out:
  "tx_out (foldl (text_loop_body K T tt thread r) st vs) =
     tx_out st @ concat (map (\<lambda>x. frame_lines 2 (resolve_frame T tt thread (fst x) (snd x)))
          (walk K (ip_data_ip r) (tx_in_kernel st) (tx_first_ip st) vs))"
  by (induction vs arbitrary: st)
     (simp_all add: text_loop_body_def frame_lines_def resolve_frame_def Let_def)

lemma text_loop_log:
  "tx_log (foldl (text_loop_body K T tt thread r) st vs) = tx_log st @ unexpected_contexts K vs"
  by (induction vs arbitrary: st)
     (simp_all add: text_loop_body_def unexpected_contexts_def Let_def)

lemma marker_context_below:
  "markers_are_sentinels K \<Longrightarrow> v < PERF_CONTEXT_MAX K \<Longrightarrow> marker_context K k v = k"
  by (auto simp: markers_are_sentinels_def marker_context_def)

lemma walk_not_first:
  "markers_are_sentinels K \<Longrightarrow>
   walk K leaf k False vs = below_threshold K (contexts_in_walk K k vs)"
  by (induction vs arbitrary: k)
     (auto simp: below_threshold_def marker_context_def markers_are_sentinels_def not_le)

lemma below_threshold_Cons:
  "below_threshold K (x # xs) =
     (if fst x < PERF_CONTEXT_MAX K then x # below_threshold K xs else below_threshold K xs)"
  by (simp add: below_threshold_def)

lemma classify_callchain_sentinel:
  "PERF_CONTEXT_MAX K \<le> v \<Longrightarrow>
   classify_callchain K leaf k (v # vs) = classify_callchain K leaf (marker_context K k v) vs"
  by (simp add: classify_callchain_def below_threshold_Cons leD)

lemma classify_callchain_address:
  "markers_are_sentinels K \<Longrightarrow> v < PERF_CONTEXT_MAX K \<Longrightarrow>
   classify_callchain K leaf k (v # vs) =
     (if v = leaf then below_threshold K (contexts_in_walk K k vs)
      else (v, k) # below_threshold K (contexts_in_walk K k vs))"
  by (simp add: classify_callchain_def below_threshold_Cons drop_leaf_duplicate_def
      marker_context_below)

lemma walk_first:
  "markers_are_sentinels K \<Longrightarrow> walk K leaf k True vs = classify_callchain K leaf k vs"
proof (induction vs arbitrary: k)
  case Nil
  show ?case by (simp add: classify_callchain_def below_threshold_def drop_leaf_duplicate_def)
next
  case (Cons v vs)
  show ?case
  proof (cases "PERF_CONTEXT_MAX K \<le> v")
    case True
    then show ?thesis using Cons
      by (simp add: classify_callchain_sentinel marker_context_def)
  next
    case False
    then have "v < PERF_CONTEXT_MAX K" by simp
    then show ?thesis using Cons.prems False
      by (simp add: classify_callchain_address walk_not_first)
  qed
qed

lemma leaf_frame_eq:
  "leaf_frame T tt r =
     resolve_frame T (tree_after_find T tt r) (sample_thread T tt r) (ip_data_ip r) (InKernel r)"
  by (simp add: leaf_frame_def tree_after_find_def sample_thread_def split: prod.splits)

lemma build_proto_record_walk:
  "build_proto_record K T sc tt r =
     (\<lparr>record_type = Record_Type_SAMPLE,
       record_sample = \<lparr>sample_time = time_data_time r,
         sample_callchain = leaf_frame T tt r #
           (if sc then map (\<lambda>x. resolve_frame T (tree_after_find T tt r) (sample_thread T tt r)
                                 (fst x) (snd x))
                         (walk K (ip_data_ip r) (InKernel r) True (callchain_data_ips r))
            else [])\<rparr>\<rparr>,
      (if sc then unexpected_contexts K (callchain_data_ips r) else []),
      tree_after_find T tt r)"
  by (simp add: build_proto_record_def leaf_frame_eq tree_after_find_def sample_thread_def
      pb_loop_sample pb_loop_log resolve_frame_def Let_def split: prod.splits)

lemma PrintSampleRecord_walk:
  "PrintSampleRecord K T sc tt r =
     (True,
      [(0, L_sample), (1, L_time (time_data_time r))] @ frame_lines 1 (leaf_frame T tt r) @
      (if sc then (1, L_callchain) #
         concat (map (\<lambda>x. frame_lines 2 (resolve_frame T (tree_after_find T tt r)
                            (sample_thread T tt r) (fst x) (snd x)))
                   (walk K (ip_data_ip r) (InKernel r) True (callchain_data_ips r)))
       else []),
      (if sc then unexpected_contexts K (callchain_data_ips r) else []),
      tree_after_find T tt r)"
  by (simp add: PrintSampleRecord_def leaf_frame_eq tree_after_find_def sample_thread_def
      text_loop_out text_loop_log resolve_frame_def frame_lines_def Let_def split: prod.splits)

lemma walk_addresses_later:
  "map fst (walk K leaf k False vs) = genuine_addresses K vs"
  by (induction vs arbitrary: k) (auto simp: genuine_addresses_def not_less)

lemma walk_addresses:
  "map fst (walk K leaf k True vs) = skip_first_if_leaf leaf (genuine_addresses K vs)"
proof (induction vs arbitrary: k)
  case Nil
  show ?case by (simp add: genuine_addresses_def skip_first_if_leaf_def)
next
  case (Cons v vs)
  show ?case
  proof (cases "PERF_CONTEXT_MAX K \<le> v")
    case True
    then have "genuine_addresses K (v # vs) = genuine_addresses K vs"
      by (simp add: genuine_addresses_def leD)
    then show ?thesis using True Cons by simp
  next
    case False
    then have "genuine_addresses K (v # vs) = v # genuine_addresses K vs"
      by (simp add: genuine_addresses_def)
    then show ?thesis using False
      by (simp add: skip_first_if_leaf_def walk_addresses_later)
  qed
qed

lemma ips_of_frames:
  "map cc_ip (map (\<lambda>x. resolve_frame T tt th (fst x) (snd x)) xs) = map fst xs"
  by (induction xs) (simp_all add: resolve_frame_def)

lemma printed_ips_append: "printed_ips (xs @ ys) = printed_ips xs @ printed_ips ys"
  by (induction xs rule: printed_ips.induct) simp_all

lemma printed_ips_frame_lines: "printed_ips (frame_lines n e) = [cc_ip e]"
  by (simp add: frame_lines_def)

lemma printed_ips_frames:
  "printed_ips (concat (map (\<lambda>x. frame_lines n (resolve_frame T tt th (fst x) (snd x))) xs)) =
   map fst xs"
  by (induction xs)
     (simp_all add: printed_ips_append printed_ips_frame_lines resolve_frame_def)

text \<open>
  Claim C2. With call-chain reporting on, the addresses of the frames are, in both
  modes, the leaf address followed by the values of the raw call-chain below the
  sentinel threshold, in their order, without the first of them if it equals the leaf
  address. So only the first value that is no sentinel can be skipped: when it is the
  leaf address the leaf has one entry for it and not two, and every later value equal
  to the leaf address has a frame of its own, whether the first was skipped or not.
  The number of frames for the leaf address is one plus its occurrences after the
  skip.
\<close>

theorem leaf_duplicate_skipped_first_only:
  "map cc_ip (pb_frames K T True tt r) =
     ip_data_ip r #
     skip_first_if_leaf (ip_data_ip r) (genuine_addresses K (callchain_data_ips r))
   \<and> printed_ips (text_lines K T True tt r) =
     ip_data_ip r #
     skip_first_if_leaf (ip_data_ip r) (genuine_addresses K (callchain_data_ips r))
   \<and> length (filter (\<lambda>e. cc_ip e = ip_data_ip r) (pb_frames K T True tt r)) =
     1 + count_list
           (skip_first_if_leaf (ip_data_ip r) (genuine_addresses K (callchain_data_ips r)))
           (ip_data_ip r)"
proof -
  let ?rest = "skip_first_if_leaf (ip_data_ip r) (genuine_addresses K (callchain_data_ips r))"
  have l: "cc_ip (leaf_frame T tt r) = ip_data_ip r"
    by (simp add: leaf_frame_eq resolve_frame_def)
  have p: "map cc_ip (pb_frames K T True tt r) = ip_data_ip r # ?rest"
    by (simp add: pb_frames_def build_proto_record_walk l walk_addresses
        ips_of_frames [unfolded map_map])
  have t: "printed_ips (text_lines K T True tt r) = ip_data_ip r # ?rest"
    by (simp add: text_lines_def PrintSampleRecord_walk printed_ips_append
        printed_ips_frame_lines printed_ips_frames l walk_addresses)
  have "length (filter (\<lambda>e. cc_ip e = a) es) = count_list (map cc_ip es) a"
    for es :: "Sample_CallChainEntry list" and a
    by (induction es) simp_all
  then have "length (filter (\<lambda>e. cc_ip e = ip_data_ip r) (pb_frames K T True tt r)) =
      count_list (map cc_ip (pb_frames K T True tt r)) (ip_data_ip r)"
    by blast
  then show ?thesis using p t by simp
qed

theorem leaf_duplicate_skipped_first_only_witness:
  "map cc_ip (pb_frames linux_perf_context example_tree True 0
       (example_sample [0x2000, 0x1000])) = [0x1000, 0x2000, 0x1000]
   \<and> printed_ips (text_lines linux_perf_context example_tree True 0
       (example_sample [0x2000, 0x1000])) = [0x1000, 0x2000, 0x1000]
   \<and> map cc_ip (pb_frames linux_perf_context example_tree True 0
       (example_sample [0xFFFFFFFFFFFFFF80, 0x1000, 0x2000, 0x1000])) = [0x1000, 0x2000, 0x1000]
   \<and> map cc_ip (pb_frames linux_perf_context example_tree True 0
       (example_sample [0x1000, 0x2000])) = [0x1000, 0x2000]
   \<and> length (filter (\<lambda>e. cc_ip e = 0x1000) (pb_frames linux_perf_context example_tree True 0
       (example_sample [0x1000, 0x2000]))) = 1"
  using leaf_duplicate_skipped_first_only [of linux_perf_context example_tree 0
      "example_sample [0x2000, 0x1000]"]
    leaf_duplicate_skipped_first_only [of linux_perf_context example_tree 0
      "example_sample [0xFFFFFFFFFFFFFF80, 0x1000, 0x2000, 0x1000]"]
    leaf_duplicate_skipped_first_only [of linux_perf_context example_tree 0
      "example_sample [0x1000, 0x2000]"]
  by (simp add: example_sample_def genuine_addresses_def skip_first_if_leaf_def
      linux_perf_context_def)

lemma classify_callchain_below:
  "\<forall>x \<in> set (classify_callchain K leaf k vs). fst x < PERF_CONTEXT_MAX K"
proof -
  have "set (drop_leaf_duplicate leaf xs) \<subseteq> set xs" for xs :: "(u64 \<times> bool) list"
    by (auto simp: drop_leaf_duplicate_def split: list.splits)
  then have "set (classify_callchain K leaf k vs)
      \<subseteq> set (below_threshold K (contexts_in_walk K k vs))"
    by (simp add: classify_callchain_def)
  then show ?thesis
    by (auto simp: below_threshold_def)
qed

text \<open>
  Claim C3. With call-chain reporting on and the markers being sentinels, the frames
  after the leaf are the values of the chain, each with the context current when the
  walk reaches it, without the values at or above the threshold and without the first
  address if it is the leaf address, in the order of the chain and each resolved under
  its context; so no frame has a value at or above the threshold. The sentinels that
  are no marker are logged at debug severity and nothing else is, and text mode
  returns true.
\<close>

theorem callchain_walk_contexts:
  assumes "markers_are_sentinels K"
  shows "pb_frames K T True tt r =
           leaf_frame T tt r #
           map (\<lambda>x. resolve_frame T (tree_after_find T tt r) (sample_thread T tt r) (fst x) (snd x))
             (classify_callchain K (ip_data_ip r) (InKernel r) (callchain_data_ips r))
       \<and> text_lines K T True tt r =
           [(0, L_sample), (1, L_time (time_data_time r))] @ frame_lines 1 (leaf_frame T tt r) @
           (1, L_callchain) #
           concat (map (\<lambda>x. frame_lines 2 (resolve_frame T (tree_after_find T tt r)
                              (sample_thread T tt r) (fst x) (snd x)))
                     (classify_callchain K (ip_data_ip r) (InKernel r) (callchain_data_ips r)))
       \<and> (\<forall>x \<in> set (classify_callchain K (ip_data_ip r) (InKernel r) (callchain_data_ips r)).
             fst x < PERF_CONTEXT_MAX K)
       \<and> fst (snd (build_proto_record K T True tt r)) =
           unexpected_contexts K (callchain_data_ips r)
       \<and> fst (PrintSampleRecord K T True tt r)
       \<and> fst (snd (snd (PrintSampleRecord K T True tt r))) =
           unexpected_contexts K (callchain_data_ips r)"
  using assms classify_callchain_below [of K "ip_data_ip r" "InKernel r" "callchain_data_ips r"]
  by (simp add: pb_frames_def text_lines_def build_proto_record_walk PrintSampleRecord_walk
      walk_first)

lemma classify_example:
  "classify_callchain linux_perf_context 0x1000 False
     [0x2000, 0xFFFFFFFFFFFFFF80, 0x3000, 0xFFFFFFFFFFFFFE00, 0x4000, 0xFFFFFFFFFFFFFFE0] =
   [(0x2000, False), (0x3000, True), (0x4000, False)]"
  by (simp add: classify_callchain_def below_threshold_def drop_leaf_duplicate_def
      marker_context_def linux_perf_context_def)

lemma unexpected_example:
  "unexpected_contexts linux_perf_context
     [0x2000, 0xFFFFFFFFFFFFFF80, 0x3000, 0xFFFFFFFFFFFFFE00, 0x4000, 0xFFFFFFFFFFFFFFE0] =
   [(DEBUG, ''Unexpected perf_context in callchain: '', Hex_arg 0xFFFFFFFFFFFFFFE0)]"
  by (simp add: unexpected_contexts_def linux_perf_context_def)

theorem callchain_walk_contexts_witness:
  "markers_are_sentinels linux_perf_context
   \<and> pb_frames linux_perf_context example_tree True 0
       (example_sample
          [0x2000, 0xFFFFFFFFFFFFFF80, 0x3000, 0xFFFFFFFFFFFFFE00, 0x4000, 0xFFFFFFFFFFFFFFE0]) =
     [\<lparr>cc_ip = 0x1000, cc_symbol = ''foo'', cc_file = ''libfoo.so''\<rparr>,
      \<lparr>cc_ip = 0x2000, cc_symbol = ''unknown'', cc_file = ''libfoo.so''\<rparr>,
      \<lparr>cc_ip = 0x3000, cc_symbol = ''unknown'', cc_file = ''[kernel.kallsyms]''\<rparr>,
      \<lparr>cc_ip = 0x4000, cc_symbol = ''unknown'', cc_file = ''libfoo.so''\<rparr>]
   \<and> fst (snd (build_proto_record linux_perf_context example_tree True 0
       (example_sample
          [0x2000, 0xFFFFFFFFFFFFFF80, 0x3000, 0xFFFFFFFFFFFFFE00, 0x4000, 0xFFFFFFFFFFFFFFE0]))) =
     [(DEBUG, ''Unexpected perf_context in callchain: '', Hex_arg 0xFFFFFFFFFFFFFFE0)]"
proof -
  have m: "markers_are_sentinels linux_perf_context"
    by (simp add: markers_are_sentinels_def linux_perf_context_def)
  show ?thesis
    using m callchain_walk_contexts [OF m, of example_tree 0
      "example_sample
          [0x2000, 0xFFFFFFFFFFFFFF80, 0x3000, 0xFFFFFFFFFFFFFE00, 0x4000, 0xFFFFFFFFFFFFFFE0]"]
    by (simp add: example_sample_def classify_example leaf_frame_eq resolve_frame_def
        tree_after_find_def sample_thread_def example_tree_def unexpected_example)
qed

text \<open>
  Claim C4. In both modes the first frame is the leaf instruction pointer of the
  sample resolved under the sample's own flag: the head of the record's call-chain,
  and the three lines after the header and the time in text mode. If call-chain
  reporting is off or the raw call-chain is empty it is the only frame, whatever the
  length of the raw call-chain.
\<close>

theorem leaf_frame_first:
  "pb_frames K T sc tt r \<noteq> []
   \<and> hd (pb_frames K T sc tt r) = leaf_frame T tt r
   \<and> take 5 (text_lines K T sc tt r) =
       [(0, L_sample), (1, L_time (time_data_time r))] @ frame_lines 1 (leaf_frame T tt r)
   \<and> (\<not> sc \<or> callchain_data_ips r = [] \<longrightarrow>
        pb_frames K T sc tt r = [leaf_frame T tt r]
        \<and> content_lines (text_lines K T sc tt r) =
            L_time (time_data_time r) # map snd (frame_lines 1 (leaf_frame T tt r)))"
  by (auto simp: pb_frames_def text_lines_def build_proto_record_walk PrintSampleRecord_walk
      frame_lines_def content_lines_def)

theorem leaf_frame_first_witness:
  "pb_frames linux_perf_context example_tree False 0 (example_sample [0x2000, 0x3000]) =
     [\<lparr>cc_ip = 0x1000, cc_symbol = ''foo'', cc_file = ''libfoo.so''\<rparr>]
   \<and> content_lines (text_lines linux_perf_context example_tree False 0
        (example_sample [0x2000, 0x3000])) =
     [L_time 7, L_ip 0x1000, L_dso ''libfoo.so'', L_symbol ''foo'']
   \<and> pb_frames linux_perf_context example_tree True 0 (example_sample []) =
     [\<lparr>cc_ip = 0x1000, cc_symbol = ''foo'', cc_file = ''libfoo.so''\<rparr>]"
  using leaf_frame_first [of linux_perf_context example_tree False 0 "example_sample [0x2000, 0x3000]"]
    leaf_frame_first [of linux_perf_context example_tree True 0 "example_sample []"]
  by (simp add: example_sample_def leaf_frame_eq resolve_frame_def frame_lines_def
      tree_after_find_def sample_thread_def example_tree_def)

section \<open>Properties of the decoder\<close>

lemma loop_read_fail:
  "ReadLittleEndian32 bs = None \<Longrightarrow>
   DumpProtobufReport_loop P f bs c = (False, [], [(ERROR, ''failed to read '', Str_arg f)], c)"
  by (subst DumpProtobufReport_loop.simps) simp

lemma loop_zero:
  "ReadLittleEndian32 bs = Some (0, rest) \<Longrightarrow>
   DumpProtobufReport_loop P f bs c = (True, [], [], c)"
  by (subst DumpProtobufReport_loop.simps) simp

lemma loop_parse_fail:
  "ReadLittleEndian32 bs = Some (sz, rest) \<Longrightarrow> sz \<noteq> 0 \<Longrightarrow>
   ParseFromBytes P (take (unat sz) rest) = None \<Longrightarrow>
   DumpProtobufReport_loop P f bs c = (False, [], [(ERROR, ''failed to read '', Str_arg f)], c)"
  by (subst DumpProtobufReport_loop.simps) simp

lemma loop_bad_type:
  "ReadLittleEndian32 bs = Some (sz, rest) \<Longrightarrow> sz \<noteq> 0 \<Longrightarrow>
   ParseFromBytes P (take (unat sz) rest) = Some (m, n) \<Longrightarrow>
   record_type m \<noteq> Record_Type_SAMPLE \<Longrightarrow>
   DumpProtobufReport_loop P f bs c =
     (False, [], [(ERROR, ''unexpected record type '', Type_arg (record_type m))], c)"
  by (subst DumpProtobufReport_loop.simps) simp

lemma loop_sample:
  "ReadLittleEndian32 bs = Some (sz, rest) \<Longrightarrow> sz \<noteq> 0 \<Longrightarrow>
   ParseFromBytes P (take (unat sz) rest) = Some (m, n) \<Longrightarrow>
   record_type m = Record_Type_SAMPLE \<Longrightarrow>
   DumpProtobufReport_loop P f bs c =
     (case DumpProtobufReport_loop P f (drop (min n (unat sz)) rest) (c + 1) of
        (ret, out, lg, c2) \<Rightarrow>
          (ret, dump_sample (unat (c + 1)) (record_sample m) @ out, lg, c2))"
  by (subst DumpProtobufReport_loop.simps) (simp add: Let_def)

lemma ReadLittleEndian32_le32_bytes:
  "ReadLittleEndian32 (le32_bytes v @ rest) = Some (v, rest)"
proof -
  have "ucast (ucast v :: byte) OR push_bit 8 (ucast (ucast (drop_bit 8 v) :: byte))
        OR push_bit 16 (ucast (ucast (drop_bit 16 v) :: byte))
        OR push_bit 24 (ucast (ucast (drop_bit 24 v) :: byte)) = v" for v :: u32
    apply (rule bit_word_eqI)
    subgoal for n by (cases "n < 8"; cases "n < 16"; cases "n < 24") (auto simp: bit_simps)
    done
  then show ?thesis
    by (simp add: ReadLittleEndian32_def le32_bytes_def)
qed

lemma le32_bytes_zero: "le32_bytes 0 = [0, 0, 0, 0]"
  by (simp add: le32_bytes_def)

lemma sample_blocks_append: "sample_blocks (xs @ ys) = sample_blocks xs + sample_blocks ys"
  by (simp add: sample_blocks_def)

lemma sample_blocks_dump_sample: "sample_blocks (dump_sample n s) = 1"
proof -
  have "filter (\<lambda>c. fst c = 0) (concat (map (\<lambda>e. [(2::nat, L_ip (cc_ip e)), (2, L_dso (cc_file e)),
          (2, L_symbol (cc_symbol e))]) es)) = []" for es :: "Sample_CallChainEntry list"
    by (induction es) simp_all
  then show ?thesis
    by (simp add: sample_blocks_def dump_sample_def)
qed

lemma loop_head_trans:
  "loop_head P bs1 bs2 \<Longrightarrow> loop_head P bs bs1 \<Longrightarrow> loop_head P bs bs2"
  by (induction rule: loop_head.induct) (auto intro: loop_head.intros)

lemma loop_head_decomp:
  "loop_head P bs bs1 \<Longrightarrow>
   \<exists>out0. DumpProtobufReport_loop P f bs c =
     (case DumpProtobufReport_loop P f bs1 (c + of_nat (sample_blocks out0)) of
        (ret, out, lg, c2) \<Rightarrow> (ret, out0 @ out, lg, c2))"
proof (induction rule: loop_head.induct)
  case loop_head_first
  have "DumpProtobufReport_loop P f bs c =
     (case DumpProtobufReport_loop P f bs (c + of_nat (sample_blocks [])) of
        (ret, out, lg, c2) \<Rightarrow> (ret, [] @ out, lg, c2))"
    by (simp add: sample_blocks_def split: prod.splits)
  then show ?case by blast
next
  case (loop_head_next bs1 sz rest m n)
  then obtain out0 where o: "DumpProtobufReport_loop P f bs c =
     (case DumpProtobufReport_loop P f bs1 (c + of_nat (sample_blocks out0)) of
        (ret, out, lg, c2) \<Rightarrow> (ret, out0 @ out, lg, c2))"
    by blast
  let ?c1 = "c + of_nat (sample_blocks out0)"
  let ?d = "dump_sample (unat (?c1 + 1)) (record_sample m)"
  have s: "DumpProtobufReport_loop P f bs1 ?c1 =
     (case DumpProtobufReport_loop P f (drop (min n (unat sz)) rest) (?c1 + 1) of
        (ret, out, lg, c2) \<Rightarrow> (ret, ?d @ out, lg, c2))"
    using loop_head_next.hyps by (rule_tac loop_sample) auto
  have c: "c + of_nat (sample_blocks (out0 @ ?d)) = ?c1 + 1"
    by (simp add: sample_blocks_append sample_blocks_dump_sample)
  have "DumpProtobufReport_loop P f bs c =
     (case DumpProtobufReport_loop P f (drop (min n (unat sz)) rest)
             (c + of_nat (sample_blocks (out0 @ ?d))) of
        (ret, out, lg, c2) \<Rightarrow> (ret, (out0 @ ?d) @ out, lg, c2))"
    unfolding c o s by (simp split: prod.splits)
  then show ?case by blast
qed

lemma loop_success_head:
  "fst (DumpProtobufReport_loop P f bs c) \<Longrightarrow>
   \<exists>bs1 rest. loop_head P bs bs1 \<and> ReadLittleEndian32 bs1 = Some (0, rest)"
proof (induction P f bs c rule: DumpProtobufReport_loop.induct)
  case (1 P f bs c)
  show ?case
  proof (cases "ReadLittleEndian32 bs")
    case None
    then show ?thesis using "1.prems" by (simp add: loop_read_fail)
  next
    case (Some a)
    obtain sz rest where a: "a = (sz, rest)" by (cases a)
    show ?thesis
    proof (cases "sz = 0")
      case True
      then show ?thesis using Some a loop_head_first by blast
    next
      case False
      show ?thesis
      proof (cases "ParseFromBytes P (take (unat sz) rest)")
        case None
        then show ?thesis using "1.prems" Some a False by (simp add: loop_parse_fail)
      next
        case (Some b)
        obtain m n where b: "b = (m, n)" by (cases b)
        show ?thesis
        proof (cases "record_type m = Record_Type_SAMPLE")
          case False
          then show ?thesis using "1.prems" \<open>ReadLittleEndian32 bs = Some a\<close> a \<open>sz \<noteq> 0\<close> Some b
            by (simp add: loop_bad_type)
        next
          case True
          let ?bs' = "drop (min n (unat sz)) rest"
          have st: "DumpProtobufReport_loop P f bs c =
             (case DumpProtobufReport_loop P f ?bs' (c + 1) of
                (ret, out, lg, c2) \<Rightarrow>
                  (ret, dump_sample (unat (c + 1)) (record_sample m) @ out, lg, c2))"
            using \<open>ReadLittleEndian32 bs = Some a\<close> a \<open>sz \<noteq> 0\<close> Some b True
            by (intro loop_sample) auto
          then have "fst (DumpProtobufReport_loop P f ?bs' (c + 1))"
            using "1.prems" by (simp split: prod.splits)
          then obtain bs1 rest1 where h: "loop_head P ?bs' bs1"
              and z: "ReadLittleEndian32 bs1 = Some (0, rest1)"
            using "1.IH" [OF \<open>ReadLittleEndian32 bs = Some a\<close> a [symmetric] \<open>sz \<noteq> 0\<close> Some
                b [symmetric] _ refl refl]
              True by blast
          have "loop_head P bs ?bs'"
            using \<open>ReadLittleEndian32 bs = Some a\<close> a \<open>sz \<noteq> 0\<close> Some b True
            by (intro loop_head_next [OF loop_head_first]) auto
          then have "loop_head P bs bs1" using h loop_head_trans by blast
          then show ?thesis using z by blast
        qed
      qed
    qed
  qed
qed

lemma DumpProtobufReport_loop_eq:
  "fopen_rb F name = Some bs \<Longrightarrow>
   DumpProtobufReport P F name w =
     (case DumpProtobufReport_loop P name bs (w_sample_count w) of
        (ret, out, lg, n) \<Rightarrow>
          (ret, w\<lparr>w_log := w_log w @ lg, w_opened := w_opened w @ [name],
                  w_stdout := foldl FprintIndented (w_stdout w) out, w_sample_count := n\<rparr>))"
  by (cases "DumpProtobufReport_loop P name bs (w_sample_count w)")
     (simp add: DumpProtobufReport_def Let_def)

lemma loop_head_zero_success:
  assumes "loop_head P bs bs1" and "ReadLittleEndian32 bs1 = Some (0, rest)"
  shows "fst (DumpProtobufReport_loop P f bs c)"
proof -
  obtain out0 where "DumpProtobufReport_loop P f bs c =
     (case DumpProtobufReport_loop P f bs1 (c + of_nat (sample_blocks out0)) of
        (ret, out, lg, c2) \<Rightarrow> (ret, out0 @ out, lg, c2))"
    using loop_head_decomp [OF assms(1)] by blast
  then show ?thesis by (simp add: loop_zero [OF assms(2)])
qed

lemma loop_head_eof_failure:
  assumes "loop_head P bs bs1" and "length bs1 < 4"
  shows "\<not> fst (DumpProtobufReport_loop P f bs c)
       \<and> fst (snd (snd (DumpProtobufReport_loop P f bs c))) =
           [(ERROR, ''failed to read '', Str_arg f)]"
proof -
  have r: "ReadLittleEndian32 bs1 = None"
    using assms(2) by (auto simp: ReadLittleEndian32_def split: list.splits)
  obtain out0 where "DumpProtobufReport_loop P f bs c =
     (case DumpProtobufReport_loop P f bs1 (c + of_nat (sample_blocks out0)) of
        (ret, out, lg, c2) \<Rightarrow> (ret, out0 @ out, lg, c2))"
    using loop_head_decomp [OF assms(1)] by blast
  then show ?thesis by (simp add: loop_read_fail [OF r])
qed

text \<open>
  Claim C6. On a file that can be opened, \<^verbatim>\<open>DumpProtobufReport\<close> returns true exactly when
  its loop reaches a point of the stream where the 32-bit length prefix it reads is
  zero. If the loop reaches a point where fewer than four bytes are left, so that the
  stream ends where a length prefix is due, it returns false and logs that reading
  the file failed: the end of the file is no clean end.
\<close>

theorem dump_succeeds_iff_zero_prefix:
  assumes "fopen_rb F name = Some bs"
  shows "fst (DumpProtobufReport P F name w) =
           (\<exists>bs1 rest. loop_head P bs bs1 \<and> ReadLittleEndian32 bs1 = Some (0, rest))
       \<and> (\<forall>bs1. loop_head P bs bs1 \<and> length bs1 < 4 \<longrightarrow>
             \<not> fst (DumpProtobufReport P F name w)
             \<and> w_log (snd (DumpProtobufReport P F name w)) =
                 w_log w @ [(ERROR, ''failed to read '', Str_arg name)])"
proof -
  have f: "fst (DumpProtobufReport P F name w) =
      fst (DumpProtobufReport_loop P name bs (w_sample_count w))"
    by (cases "DumpProtobufReport_loop P name bs (w_sample_count w)")
       (simp add: DumpProtobufReport_loop_eq [OF assms])
  have l: "w_log (snd (DumpProtobufReport P F name w)) =
      w_log w @ fst (snd (snd (DumpProtobufReport_loop P name bs (w_sample_count w))))"
    by (cases "DumpProtobufReport_loop P name bs (w_sample_count w)")
       (simp add: DumpProtobufReport_loop_eq [OF assms])
  show ?thesis
    unfolding f l
    using loop_success_head [of P name bs "w_sample_count w"]
      loop_head_zero_success [of P bs _ _ name "w_sample_count w"]
      loop_head_eof_failure [of P bs _ name "w_sample_count w"]
    by blast
qed

lemma example_read: "ReadLittleEndian32 (2 # 0 # 0 # 0 # xs) = Some (2, xs)"
  by (simp add: ReadLittleEndian32_def)

lemma example_head: "loop_head example_protobuf (2 # 0 # 0 # 0 # 1 # b # xs) xs"
proof -
  let ?m = "\<lparr>record_type = Record_Type_SAMPLE,
              record_sample = \<lparr>sample_time = ucast b, sample_callchain =
                [\<lparr>cc_ip = 0x1000, cc_symbol = ''foo'', cc_file = ''libfoo.so''\<rparr>]\<rparr>\<rparr>"
  have p: "ParseFromBytes example_protobuf (take (unat (2 :: u32)) (1 # b # xs)) = Some (?m, 2)"
    by (simp add: example_protobuf_def)
  have "loop_head example_protobuf (2 # 0 # 0 # 0 # 1 # b # xs)
          (drop (min 2 (unat (2 :: u32))) (1 # b # xs))"
    by (rule loop_head_next [OF loop_head_first example_read _ p]) simp_all
  then show ?thesis by simp
qed

theorem dump_succeeds_iff_zero_prefix_witness:
  "fst (DumpProtobufReport example_protobuf example_files ''report.pb'' (new_world :: 64 word world))
   \<and> \<not> fst (DumpProtobufReport example_protobuf example_files ''cut.pb''
            (new_world :: 64 word world))"
proof -
  have "loop_head example_protobuf [2, 0, 0, 0, 1, 7, 2, 0, 0, 0, 1, 7, 0, 0, 0, 0] [0, 0, 0, 0]"
    using loop_head_trans [OF example_head example_head] by blast
  moreover have "ReadLittleEndian32 [0, 0, 0, 0] = Some (0, [])"
    by (simp add: ReadLittleEndian32_def)
  moreover have "loop_head example_protobuf [2, 0, 0, 0, 1, 7, 2, 0, 0, 0, 1, 7] []"
    using loop_head_trans [OF example_head example_head] by blast
  moreover have "fopen_rb example_files ''report.pb''
      = Some [2, 0, 0, 0, 1, 7, 2, 0, 0, 0, 1, 7, 0, 0, 0, 0]"
    and "fopen_rb example_files ''cut.pb'' = Some [2, 0, 0, 0, 1, 7, 2, 0, 0, 0, 1, 7]"
    by (simp_all add: example_files_def)
  ultimately show ?thesis
    using dump_succeeds_iff_zero_prefix [of example_files "''report.pb''" _ example_protobuf
        "new_world :: 64 word world"]
      dump_succeeds_iff_zero_prefix [of example_files "''cut.pb''" _ example_protobuf
        "new_world :: 64 word world"]
    by (metis list.size(3) zero_less_numeral)
qed

text \<open>
  Claim C9. If the loop of the decoder reaches a record that parses and whose type is
  not \<^verbatim>\<open>SAMPLE\<close>, then \<^verbatim>\<open>DumpProtobufReport\<close> returns false and the last entry of its log
  is the error with the offending type; from that record on the loop prints nothing,
  leaves the counter as it is and does not look at the rest of the stream.
\<close>

theorem unexpected_type_fails_at_once:
  assumes "fopen_rb F name = Some bs"
    and "loop_head P bs bs1"
    and "ReadLittleEndian32 bs1 = Some (sz, rest)"
    and "sz \<noteq> 0"
    and "ParseFromBytes P (take (unat sz) rest) = Some (m, n)"
    and "record_type m \<noteq> Record_Type_SAMPLE"
  shows "\<not> fst (DumpProtobufReport P F name w)
       \<and> w_log (snd (DumpProtobufReport P F name w)) =
           w_log w @ [(ERROR, ''unexpected record type '', Type_arg (record_type m))]
       \<and> DumpProtobufReport_loop P name bs1 c =
           (False, [], [(ERROR, ''unexpected record type '', Type_arg (record_type m))], c)"
proof -
  have b: "DumpProtobufReport_loop P name bs1 c\<^sub>1 =
      (False, [], [(ERROR, ''unexpected record type '', Type_arg (record_type m))], c\<^sub>1)" for c\<^sub>1
    using assms(3-6) by (rule loop_bad_type)
  obtain out0 where "DumpProtobufReport_loop P name bs (w_sample_count w) =
     (case DumpProtobufReport_loop P name bs1 (w_sample_count w + of_nat (sample_blocks out0)) of
        (ret, out, lg, c2) \<Rightarrow> (ret, out0 @ out, lg, c2))"
    using loop_head_decomp [OF assms(2)] by blast
  then have "DumpProtobufReport_loop P name bs (w_sample_count w) =
      (False, out0, [(ERROR, ''unexpected record type '', Type_arg (record_type m))],
       w_sample_count w + of_nat (sample_blocks out0))"
    by (simp add: b)
  then show ?thesis
    using b [of c] by (simp add: DumpProtobufReport_loop_eq [OF assms(1)])
qed

theorem unexpected_type_fails_at_once_witness:
  "\<not> fst (DumpProtobufReport example_protobuf example_files ''other.pb''
          (new_world :: 64 word world))
   \<and> w_log (snd (DumpProtobufReport example_protobuf example_files ''other.pb''
          (new_world :: 64 word world))) =
       [(ERROR, ''unexpected record type '', Type_arg (Record_Type_other 2))]"
proof -
  let ?m = "\<lparr>record_type = Record_Type_other 2,
              record_sample = \<lparr>sample_time = 7, sample_callchain =
                [\<lparr>cc_ip = 0x1000, cc_symbol = ''foo'', cc_file = ''libfoo.so''\<rparr>]\<rparr>\<rparr>"
  have f: "fopen_rb example_files ''other.pb''
      = Some [2, 0, 0, 0, 1, 7, 2, 0, 0, 0, 2, 7, 0, 0, 0, 0]"
    by (simp add: example_files_def)
  have h: "loop_head example_protobuf [2, 0, 0, 0, 1, 7, 2, 0, 0, 0, 2, 7, 0, 0, 0, 0]
      [2, 0, 0, 0, 2, 7, 0, 0, 0, 0]"
    by (rule example_head)
  have r: "ReadLittleEndian32 [2, 0, 0, 0, 2, 7, 0, 0, 0, 0] = Some (2, [2, 7, 0, 0, 0, 0])"
    by (rule example_read)
  have z: "(2 :: u32) \<noteq> 0" by simp
  have p: "ParseFromBytes example_protobuf (take (unat (2 :: u32)) [2, 7, 0, 0, 0, 0]) =
      Some (?m, 2)"
    by (simp add: example_protobuf_def)
  have t: "record_type ?m \<noteq> Record_Type_SAMPLE" by simp
  show ?thesis
    using unexpected_type_fails_at_once [OF f h r z p t, of "new_world :: 64 word world" "0 :: 64 word"]
    by (simp add: new_world_def)
qed

lemma dump_sample_frame_lines:
  "dump_sample n s =
     [(0, L_sample_n n), (1, L_time (sample_time s)), (1, L_callchain)] @
     concat (map (frame_lines 2) (sample_callchain s))"
proof -
  have "frame_lines 2 = (\<lambda>e. [(2, L_ip (cc_ip e)), (2, L_dso (cc_file e)),
                               (2, L_symbol (cc_symbol e))])"
    by (simp add: fun_eq_iff frame_lines_def)
  then show ?thesis
    by (simp add: dump_sample_def)
qed

lemma content_lines_append: "content_lines (xs @ ys) = content_lines xs @ content_lines ys"
  by (simp add: content_lines_def)

lemma content_lines_Cons:
  "content_lines (x # xs) = (if is_header (snd x) then content_lines xs else snd x # content_lines xs)"
  by (simp add: content_lines_def)

lemma content_lines_Nil: "content_lines [] = []"
  by (simp add: content_lines_def)

lemma content_lines_frame_lines:
  "content_lines (frame_lines n e) = [L_ip (cc_ip e), L_dso (cc_file e), L_symbol (cc_symbol e)]"
  by (simp add: content_lines_def frame_lines_def)

lemma content_lines_frames:
  "content_lines (concat (map (\<lambda>x. frame_lines n (g x)) xs)) =
   concat (map (\<lambda>x. [L_ip (cc_ip (g x)), L_dso (cc_file (g x)), L_symbol (cc_symbol (g x))]) xs)"
  by (induction xs) (simp_all add: content_lines_Nil content_lines_append content_lines_frame_lines)

lemma dump_mirrors_text:
  "content_lines (dump_sample k (record_sample (fst (build_proto_record K T sc tt r)))) =
   content_lines (text_lines K T sc tt r)"
proof -
  have "content_lines (concat (map (frame_lines 2) (map g xs))) =
        content_lines (concat (map (\<lambda>x. frame_lines 2 (g x)) xs))"
    for g :: "u64 \<times> bool \<Rightarrow> Sample_CallChainEntry" and xs
    by (simp add: comp_def)
  then show ?thesis
    by (simp add: dump_sample_frame_lines build_proto_record_walk text_lines_def
        PrintSampleRecord_walk content_lines_append content_lines_Cons content_lines_Nil
        content_lines_frame_lines content_lines_frames comp_def)
qed

text \<open>
  Claim C5. Every sample record that the loop of the decoder reaches is printed as a
  block of indented lines: the numbered header, the time at level 1, the call-chain
  header, then for each frame of the record, in order, its address, module and symbol
  at level 2. The block mirrors the block of text mode: for the record built from a
  sample, its lines without the headers and the indentation are those that text mode
  prints for the sample.
\<close>

theorem decoder_renders_text_block:
  assumes "loop_head P bs bs1"
    and "ReadLittleEndian32 bs1 = Some (sz, rest)"
    and "sz \<noteq> 0"
    and "ParseFromBytes P (take (unat sz) rest) = Some (m, n)"
    and "record_type m = Record_Type_SAMPLE"
  shows "(\<exists>out0 out1. fst (snd (DumpProtobufReport_loop P f bs c)) =
            out0 @
            [(0, L_sample_n (unat (c + of_nat (sample_blocks out0) + 1))),
             (1, L_time (sample_time (record_sample m))), (1, L_callchain)] @
            concat (map (\<lambda>e. [(2, L_ip (cc_ip e)), (2, L_dso (cc_file e)),
                               (2, L_symbol (cc_symbol e))])
                      (sample_callchain (record_sample m))) @
            out1)
       \<and> content_lines (dump_sample k (record_sample (fst (build_proto_record K T sc tt r)))) =
           content_lines (text_lines K T sc tt r)"
proof -
  obtain out0 where o: "DumpProtobufReport_loop P f bs c =
     (case DumpProtobufReport_loop P f bs1 (c + of_nat (sample_blocks out0)) of
        (ret, out, lg, c2) \<Rightarrow> (ret, out0 @ out, lg, c2))"
    using loop_head_decomp [OF assms(1)] by blast
  let ?c1 = "c + of_nat (sample_blocks out0)"
  have s: "DumpProtobufReport_loop P f bs1 ?c1 =
     (case DumpProtobufReport_loop P f (drop (min n (unat sz)) rest) (?c1 + 1) of
        (ret, out, lg, c2) \<Rightarrow>
          (ret, dump_sample (unat (?c1 + 1)) (record_sample m) @ out, lg, c2))"
    using assms(2-5) by (rule loop_sample)
  obtain ret out1 lg c2 where
    d: "DumpProtobufReport_loop P f (drop (min n (unat sz)) rest) (?c1 + 1) = (ret, out1, lg, c2)"
    by (cases "DumpProtobufReport_loop P f (drop (min n (unat sz)) rest) (?c1 + 1)") auto
  have "fst (snd (DumpProtobufReport_loop P f bs c)) =
      out0 @ dump_sample (unat (?c1 + 1)) (record_sample m) @ out1"
    by (simp add: o s d)
  then have "\<exists>out0 out1. fst (snd (DumpProtobufReport_loop P f bs c)) =
            out0 @
            [(0, L_sample_n (unat (c + of_nat (sample_blocks out0) + 1))),
             (1, L_time (sample_time (record_sample m))), (1, L_callchain)] @
            concat (map (\<lambda>e. [(2, L_ip (cc_ip e)), (2, L_dso (cc_file e)),
                               (2, L_symbol (cc_symbol e))])
                      (sample_callchain (record_sample m))) @
            out1"
    by (intro exI [of _ out0] exI [of _ out1]) (simp add: dump_sample_def)
  then show ?thesis by (rule conjI [OF _ dump_mirrors_text])
qed

theorem decoder_renders_text_block_witness:
  "(\<exists>out0 out1. fst (snd (DumpProtobufReport_loop example_protobuf ''report.pb''
        [2, 0, 0, 0, 1, 7, 2, 0, 0, 0, 1, 7, 0, 0, 0, 0] (0 :: 64 word))) =
      out0 @
      [(0, L_sample_n (unat ((0 :: 64 word) + of_nat (sample_blocks out0) + 1))),
       (1, L_time 7), (1, L_callchain)] @
      [(2, L_ip 0x1000), (2, L_dso ''libfoo.so''), (2, L_symbol ''foo'')] @ out1)
   \<and> content_lines (dump_sample 1 (record_sample (fst (build_proto_record linux_perf_context
         example_tree True 0 (example_sample [0x2000]))))) =
       content_lines (text_lines linux_perf_context example_tree True 0 (example_sample [0x2000]))"
proof -
  let ?m = "\<lparr>record_type = Record_Type_SAMPLE,
              record_sample = \<lparr>sample_time = 7, sample_callchain =
                [\<lparr>cc_ip = 0x1000, cc_symbol = ''foo'', cc_file = ''libfoo.so''\<rparr>]\<rparr>\<rparr>"
  have h: "loop_head example_protobuf [2, 0, 0, 0, 1, 7, 2, 0, 0, 0, 1, 7, 0, 0, 0, 0]
      [2, 0, 0, 0, 1, 7, 0, 0, 0, 0]"
    by (rule example_head)
  have r: "ReadLittleEndian32 [2, 0, 0, 0, 1, 7, 0, 0, 0, 0] = Some (2, [1, 7, 0, 0, 0, 0])"
    by (rule example_read)
  have z: "(2 :: u32) \<noteq> 0" by simp
  have p: "ParseFromBytes example_protobuf (take (unat (2 :: u32)) [1, 7, 0, 0, 0, 0]) =
      Some (?m, 2)"
    by (simp add: example_protobuf_def)
  have t: "record_type ?m = Record_Type_SAMPLE" by simp
  show ?thesis
    using decoder_renders_text_block [OF h r z p t, of "''report.pb''" "0 :: 64 word" 1
        linux_perf_context example_tree True 0 "example_sample [0x2000]"]
    by simp
qed

lemma fprint_all_unlimited:
  "f_room fp = None \<Longrightarrow> foldl FprintIndented fp out = fp\<lparr>f_text := f_text fp @ out\<rparr>"
  by (induction out arbitrary: fp) (simp_all add: FprintIndented_def)

lemma loop_step_cases:
  "(\<exists>ret lg. \<forall>c :: 's::len word. DumpProtobufReport_loop P f bs c = (ret, [], lg, c))
   \<or> (\<exists>m sz rest n. ReadLittleEndian32 bs = Some (sz, rest) \<and> sz \<noteq> 0
          \<and> ParseFromBytes P (take (unat sz) rest) = Some (m, n)
          \<and> record_type m = Record_Type_SAMPLE)"
proof (cases "ReadLittleEndian32 bs")
  case None
  then show ?thesis using loop_read_fail by metis
next
  case (Some a)
  obtain sz rest where a: "ReadLittleEndian32 bs = Some (sz, rest)"
    using Some by (cases a) auto
  show ?thesis
  proof (cases "sz = 0")
    case True
    then show ?thesis using a loop_zero by metis
  next
    case False
    show ?thesis
    proof (cases "ParseFromBytes P (take (unat sz) rest)")
      case None
      then show ?thesis using a False loop_parse_fail by metis
    next
      case (Some b)
      obtain m n where b: "ParseFromBytes P (take (unat sz) rest) = Some (m, n)"
        using Some by (cases b) auto
      show ?thesis
      proof (cases "record_type m = Record_Type_SAMPLE")
        case True
        then show ?thesis using a False b by blast
      next
        case False
        then show ?thesis using loop_bad_type [OF a \<open>sz \<noteq> 0\<close> b False] by blast
      qed
    qed
  qed
qed

lemma loop_induct:
  fixes Q :: "byte list \<Rightarrow> 's::len word \<Rightarrow> bool"
  assumes stop: "\<And>bs c ret lg.
       (\<And>c' :: 's word. DumpProtobufReport_loop P f bs c' = (ret, [], lg, c')) \<Longrightarrow> Q bs c"
    and sample: "\<And>bs c sz rest m n.
       ReadLittleEndian32 bs = Some (sz, rest) \<Longrightarrow> sz \<noteq> 0 \<Longrightarrow>
       ParseFromBytes P (take (unat sz) rest) = Some (m, n) \<Longrightarrow>
       record_type m = Record_Type_SAMPLE \<Longrightarrow>
       Q (drop (min n (unat sz)) rest) (c + 1) \<Longrightarrow> Q bs c"
  shows "Q bs c"
proof -
  have "\<forall>c. Q bs c"
  proof (induction "length bs" arbitrary: bs rule: less_induct)
    case less
    show ?case
    proof (rule disjE [OF loop_step_cases [where 's = 's, of P f bs]])
      assume "\<exists>ret lg. \<forall>c :: 's word. DumpProtobufReport_loop P f bs c = (ret, [], lg, c)"
      then show ?thesis using stop by blast
    next
      assume "\<exists>m sz rest n. ReadLittleEndian32 bs = Some (sz, rest) \<and> sz \<noteq> 0
            \<and> ParseFromBytes P (take (unat sz) rest) = Some (m, n)
            \<and> record_type m = Record_Type_SAMPLE"
      then obtain m sz rest n where a: "ReadLittleEndian32 bs = Some (sz, rest)"
        and z: "sz \<noteq> 0"
        and b: "ParseFromBytes P (take (unat sz) rest) = Some (m, n)"
        and t: "record_type m = Record_Type_SAMPLE"
        by blast
      have "length rest < length bs"
        using a by (auto simp: ReadLittleEndian32_def split: list.splits)
      then have "length (drop (min n (unat sz)) rest) < length bs" by simp
      then have "\<forall>c. Q (drop (min n (unat sz)) rest) c" by (rule less)
      then show ?thesis using sample [OF a z b t] by blast
    qed
  qed
  then show ?thesis by blast
qed

lemma hd_dump_sample: "hd (dump_sample n s @ out) = (0, L_sample_n n)"
  by (simp add: dump_sample_def)

lemma loop_out_hd:
  fixes c c' :: "'s::len word"
  assumes "fst (snd (DumpProtobufReport_loop P f bs c)) \<noteq> []"
  shows "hd (fst (snd (DumpProtobufReport_loop P f bs c'))) = (0, L_sample_n (unat (c' + 1)))
       \<and> fst (snd (DumpProtobufReport_loop P f bs c')) \<noteq> []"
proof (rule disjE [OF loop_step_cases [where 's = 's, of P f bs]])
  assume "\<exists>ret lg. \<forall>c :: 's word. DumpProtobufReport_loop P f bs c = (ret, [], lg, c)"
  then show ?thesis using assms by auto
next
  assume "\<exists>m sz rest n. ReadLittleEndian32 bs = Some (sz, rest) \<and> sz \<noteq> 0
        \<and> ParseFromBytes P (take (unat sz) rest) = Some (m, n)
        \<and> record_type m = Record_Type_SAMPLE"
  then obtain m sz rest n where a: "ReadLittleEndian32 bs = Some (sz, rest)" and z: "sz \<noteq> 0"
    and b: "ParseFromBytes P (take (unat sz) rest) = Some (m, n)"
    and t: "record_type m = Record_Type_SAMPLE"
    by blast
  show ?thesis
    by (cases "DumpProtobufReport_loop P f (drop (min n (unat sz)) rest) (c' + 1)")
       (simp add: loop_sample [OF a z b t] hd_dump_sample, simp add: dump_sample_def)
qed

lemma loop_count:
  "snd (snd (snd (DumpProtobufReport_loop P f bs c))) =
     c + of_nat (sample_blocks (fst (snd (DumpProtobufReport_loop P f bs c))))"
proof (induction bs c rule: loop_induct [where P = P and f = f])
  case (1 bs c ret lg)
  then show ?case by (simp add: sample_blocks_def)
next
  case (2 bs c sz rest m n)
  then show ?case
    by (cases "DumpProtobufReport_loop P f (drop (min n (unat sz)) rest) (c + 1)")
       (simp add: loop_sample [OF "2.hyps"] sample_blocks_append sample_blocks_dump_sample)
qed

lemma sample_blocks_pos:
  "out \<noteq> [] \<Longrightarrow> fst (hd out) = 0 \<Longrightarrow> 0 < sample_blocks out"
  by (cases out) (simp_all add: sample_blocks_def)

lemma word_add_blocks_neq:
  fixes c :: "'s::len word"
  assumes "0 < N" and "N < 2 ^ LENGTH('s)"
  shows "unat (c + of_nat N + 1) \<noteq> unat (c + 1)"
proof
  assume "unat (c + of_nat N + 1) = unat (c + 1)"
  then have "c + of_nat N + 1 = c + 1" by (simp only: word_unat_eq_iff)
  then have "(of_nat N :: 's word) = 0" by simp
  then have "2 ^ LENGTH('s) dvd N" by (simp add: word_of_nat_eq_0_iff)
  then show False using assms by (auto dest: dvd_imp_le)
qed

text \<open>
  Claim C10. The counter of the decoder is static and never reset: of two invocations
  of \<^verbatim>\<open>DumpProtobufReport\<close> on the same file in one process, the first of which prints
  at least one block (and fewer blocks than the counter has values), the first block
  of the second is numbered one more than the number of blocks printed so far, not with
  the number of the first block of the first, so the two outputs differ.
\<close>

theorem static_sample_count_carries_over:
  fixes w :: "'s::len word world"
  assumes "fopen_rb F name = Some bs"
    and "f_room (w_stdout w) = None"
    and "DumpProtobufReport P F name w = (r1, w1)"
    and "DumpProtobufReport P F name w1 = (r2, w2)"
    and "f_text (w_stdout w1) = f_text (w_stdout w) @ out1"
    and "f_text (w_stdout w2) = f_text (w_stdout w1) @ out2"
    and "out1 \<noteq> []"
    and "sample_blocks out1 < 2 ^ LENGTH('s)"
  shows "out2 \<noteq> out1
       \<and> hd out1 = (0, L_sample_n (unat (w_sample_count w + 1)))
       \<and> hd out2 = (0, L_sample_n (unat (w_sample_count w + of_nat (sample_blocks out1) + 1)))
       \<and> w_sample_count w1 = w_sample_count w + of_nat (sample_blocks out1)"
proof -
  let ?c = "w_sample_count w"
  let ?c1 = "w_sample_count w1"
  obtain ra oa la ca where a: "DumpProtobufReport_loop P name bs ?c = (ra, oa, la, ca)"
    by (cases "DumpProtobufReport_loop P name bs ?c") auto
  have w1: "w1 = w\<lparr>w_log := w_log w @ la, w_opened := w_opened w @ [name],
                    w_stdout := (w_stdout w)\<lparr>f_text := f_text (w_stdout w) @ oa\<rparr>,
                    w_sample_count := ca\<rparr>"
    using assms(3) by (simp add: DumpProtobufReport_loop_eq [OF assms(1)] a
        fprint_all_unlimited [OF assms(2)])
  have o1: "out1 = oa" using assms(5) by (simp add: w1)
  have c1: "?c1 = ?c + of_nat (sample_blocks out1)"
    using loop_count [of P name bs ?c] by (simp add: a w1 o1)
  have r1: "f_room (w_stdout w1) = None" using assms(2) by (simp add: w1)
  obtain rb ob lb cb where b: "DumpProtobufReport_loop P name bs ?c1 = (rb, ob, lb, cb)"
    by (cases "DumpProtobufReport_loop P name bs ?c1") auto
  have w2: "w2 = w1\<lparr>w_log := w_log w1 @ lb, w_opened := w_opened w1 @ [name],
                    w_stdout := (w_stdout w1)\<lparr>f_text := f_text (w_stdout w1) @ ob\<rparr>,
                    w_sample_count := cb\<rparr>"
    using assms(4) by (simp add: DumpProtobufReport_loop_eq [OF assms(1)] b
        fprint_all_unlimited [OF r1])
  have o2: "out2 = ob" using assms(6) by (simp add: w2)
  have ne: "fst (snd (DumpProtobufReport_loop P name bs ?c)) \<noteq> []"
    using assms(7) by (simp add: a o1)
  have h1: "hd out1 = (0, L_sample_n (unat (?c + 1)))"
    using loop_out_hd [OF ne, of ?c] by (simp add: a o1)
  have h2: "hd out2 = (0, L_sample_n (unat (?c1 + 1)))" and n2: "out2 \<noteq> []"
    using loop_out_hd [OF ne, of ?c1] by (simp_all add: b o2)
  have "0 < sample_blocks out1"
    using assms(7) h1 by (intro sample_blocks_pos) simp_all
  then have "unat (?c + of_nat (sample_blocks out1) + 1) \<noteq> unat (?c + 1)"
    using assms(8) by (rule word_add_blocks_neq)
  then have "hd out2 \<noteq> hd out1" by (simp add: h1 h2 c1)
  then have "out2 \<noteq> out1" by auto
  then show ?thesis using h1 h2 c1 by simp
qed

lemma example_report_loop:
  fixes c :: "'s::len word"
  shows "DumpProtobufReport_loop example_protobuf f
     [2, 0, 0, 0, 1, 7, 2, 0, 0, 0, 1, 7, 0, 0, 0, 0] c =
   (True,
    dump_sample (unat (c + 1)) \<lparr>sample_time = 7, sample_callchain =
       [\<lparr>cc_ip = 0x1000, cc_symbol = ''foo'', cc_file = ''libfoo.so''\<rparr>]\<rparr> @
    dump_sample (unat (c + 1 + 1)) \<lparr>sample_time = 7, sample_callchain =
       [\<lparr>cc_ip = 0x1000, cc_symbol = ''foo'', cc_file = ''libfoo.so''\<rparr>]\<rparr>,
    [], c + 1 + 1)"
proof -
  let ?m = "\<lparr>record_type = Record_Type_SAMPLE,
              record_sample = \<lparr>sample_time = 7, sample_callchain =
                [\<lparr>cc_ip = 0x1000, cc_symbol = ''foo'', cc_file = ''libfoo.so''\<rparr>]\<rparr>\<rparr>"
  have z: "(2 :: u32) \<noteq> 0" by simp
  have p: "ParseFromBytes example_protobuf (take (unat (2 :: u32)) (1 # 7 # xs)) = Some (?m, 2)"
    for xs
    by (simp add: example_protobuf_def)
  have t: "record_type ?m = Record_Type_SAMPLE" by simp
  have e: "DumpProtobufReport_loop example_protobuf f [0, 0, 0, 0] k = (True, [], [], k)"
    for k :: "'s word"
    by (rule loop_zero [of _ "[]"]) (simp add: ReadLittleEndian32_def)
  show ?thesis
    by (simp add: loop_sample [OF example_read z p t] e)
qed

theorem static_sample_count_carries_over_witness:
  "\<exists>w1 w2 out1 out2.
     DumpProtobufReport example_protobuf example_files ''report.pb''
       (new_world :: 64 word world) = (True, w1)
     \<and> DumpProtobufReport example_protobuf example_files ''report.pb'' w1 = (True, w2)
     \<and> f_text (w_stdout w1) = out1
     \<and> f_text (w_stdout w2) = out1 @ out2
     \<and> hd out1 = (0, L_sample_n 1)
     \<and> hd out2 = (0, L_sample_n 3)
     \<and> out2 \<noteq> out1"
proof -
  let ?s = "\<lparr>sample_time = 7, sample_callchain =
       [\<lparr>cc_ip = 0x1000, cc_symbol = ''foo'', cc_file = ''libfoo.so''\<rparr>]\<rparr>"
  let ?w = "new_world :: 64 word world"
  let ?out1 = "dump_sample 1 ?s @ dump_sample 2 ?s"
  let ?out2 = "dump_sample 3 ?s @ dump_sample 4 ?s"
  let ?w1 = "?w\<lparr>w_log := [], w_opened := [''report.pb''],
                 w_stdout := (w_stdout ?w)\<lparr>f_text := ?out1\<rparr>, w_sample_count := 2\<rparr>"
  let ?w2 = "?w1\<lparr>w_log := [], w_opened := [''report.pb'', ''report.pb''],
                 w_stdout := (w_stdout ?w1)\<lparr>f_text := ?out1 @ ?out2\<rparr>, w_sample_count := 4\<rparr>"
  have f: "fopen_rb example_files ''report.pb''
      = Some [2, 0, 0, 0, 1, 7, 2, 0, 0, 0, 1, 7, 0, 0, 0, 0]"
    by (simp add: example_files_def)
  have r: "f_room (w_stdout ?w) = None" by (simp add: new_world_def)
  have d1: "DumpProtobufReport example_protobuf example_files ''report.pb'' ?w = (True, ?w1)"
    by (simp add: DumpProtobufReport_loop_eq [OF f] example_report_loop fprint_all_unlimited
        new_world_def)
  have d2: "DumpProtobufReport example_protobuf example_files ''report.pb'' ?w1 = (True, ?w2)"
    by (simp add: DumpProtobufReport_loop_eq [OF f] example_report_loop fprint_all_unlimited
        new_world_def)
  have t1: "f_text (w_stdout ?w1) = f_text (w_stdout ?w) @ ?out1" by (simp add: new_world_def)
  have t2: "f_text (w_stdout ?w2) = f_text (w_stdout ?w1) @ ?out2" by simp
  have n: "?out1 \<noteq> []" by (simp add: dump_sample_def)
  have b: "sample_blocks ?out1 = 2"
    by (simp add: sample_blocks_append sample_blocks_dump_sample)
  have l: "sample_blocks ?out1 < 2 ^ LENGTH(64)" unfolding b by simp
  have "?out2 \<noteq> ?out1 \<and> hd ?out1 = (0, L_sample_n 1) \<and> hd ?out2 = (0, L_sample_n 3)"
    using static_sample_count_carries_over [OF f r d1 d2 t1 t2 n l]
    unfolding b by (simp add: new_world_def)
  then show ?thesis using d1 d2 by simp
qed

section \<open>Properties of a run\<close>

lemma ParseOptions_loop_report_filename:
  "''-o'' \<notin> set args \<Longrightarrow> ParseOptions_loop args cmd = (ok, cmd1, lg) \<Longrightarrow>
   report_filename cmd1 = report_filename cmd"
proof (induction args cmd arbitrary: ok cmd1 lg rule: ParseOptions_loop.induct)
  case (1 cmd)
  then show ?case by simp
next
  case (2 a args cmd)
  show ?case
  proof (cases args)
    case Nil
    then show ?thesis using "2.prems" by (auto split: if_splits)
  next
    case (Cons f args')
    then show ?thesis
      using "2.prems" "2.IH" by (auto split: if_splits)
  qed
qed

text \<open>
  Claim C8. If the options select binary mode (\<^verbatim>\<open>--protobuf\<close>) and give no output file
  (no \<^verbatim>\<open>-o\<close>), the run returns false from option parsing: the error is logged, and
  nothing else changes, so neither the record file nor any other file is opened and
  no record is processed.
\<close>

theorem protobuf_needs_report_file:
  assumes "ParseOptions_loop args cmd0 = (True, cmd, lg)"
    and "use_protobuf cmd"
    and "''-o'' \<notin> set args"
    and "report_filename cmd0 = []"
  shows "Run K T P F cmd0 args w =
           (False, w\<lparr>w_log := w_log w @ lg @
              [(ERROR, ''please specify a report filename to write protobuf data'', No_arg)]\<rparr>)"
proof -
  have "report_filename cmd = []"
    using ParseOptions_loop_report_filename [OF assms(3,1)] assms(4) by simp
  then have "ParseOptions args cmd0 =
      (False, cmd, lg @ [(ERROR, ''please specify a report filename to write protobuf data'',
                          No_arg)])"
    using assms(1,2) by (simp add: ParseOptions_def)
  then show ?thesis by (simp add: Run_def)
qed

theorem protobuf_needs_report_file_witness:
  "Run linux_perf_context example_tree example_protobuf example_files
     (new_ReportSampleCommand 0) [''-i'', ''perf.data'', ''--protobuf'']
     (new_world :: 64 word world) =
   (False, new_world\<lparr>w_log :=
      [(ERROR, ''please specify a report filename to write protobuf data'', No_arg)]\<rparr>)"
proof -
  have "ParseOptions_loop [''-i'', ''perf.data'', ''--protobuf'']
      (new_ReportSampleCommand 0 :: (nat, 64 word) ReportSampleCommand) =
      (True, (new_ReportSampleCommand 0)\<lparr>record_filename := ''perf.data'', use_protobuf := True\<rparr>,
       [])"
    by simp
  from protobuf_needs_report_file [OF this, of linux_perf_context example_tree example_protobuf
      example_files "new_world :: 64 word world"]
  show ?thesis by (simp add: new_ReportSampleCommand_def new_world_def)
qed

subsection \<open>What the buffered streams keep\<close>

lemma fwrite_ok:
  "fwrite bs fp = (True, fp1) \<Longrightarrow>
   f_bytes fp1 @ f_pending fp1 = f_bytes fp @ f_pending fp @ bs"
  by (cases "f_room fp")
     (auto simp: fwrite_def fflush_def file_put_def Let_def split: if_splits)

lemma os_flush_blocks_idle:
  "\<not> (0 < os_block os \<and> os_block os < length (os_buffer os)) \<Longrightarrow> os_flush_blocks os = os"
  by (subst os_flush_blocks.simps) auto

lemma os_flush_blocks_step:
  "0 < os_block os \<and> os_block os < length (os_buffer os) \<Longrightarrow>
   fwrite (take (os_block os) (os_buffer os)) (os_file os) = (ok, fp) \<Longrightarrow>
   os_flush_blocks os =
     (if ok then os_flush_blocks (os\<lparr>os_buffer := drop (os_block os) (os_buffer os),
                                       os_file := fp\<rparr>)
      else os\<lparr>os_buffer := [], os_file := fp, os_had_error := True\<rparr>)"
  by (subst os_flush_blocks.simps) simp

lemma os_flush_blocks_ok:
  "\<not> os_had_error (os_flush_blocks os) \<Longrightarrow>
   \<not> os_had_error os \<and> os_written (os_flush_blocks os) = os_written os"
proof (induction os rule: os_flush_blocks.induct)
  case (1 os)
  show ?case
  proof (cases "0 < os_block os \<and> os_block os < length (os_buffer os)")
    case False
    then show ?thesis using "1.prems" os_flush_blocks_idle [OF False] by simp
  next
    case True
    obtain ok fp where f: "fwrite (take (os_block os) (os_buffer os)) (os_file os) = (ok, fp)"
      by (cases "fwrite (take (os_block os) (os_buffer os)) (os_file os)") auto
    let ?os1 = "os\<lparr>os_buffer := drop (os_block os) (os_buffer os), os_file := fp\<rparr>"
    have ok: "ok" using "1.prems" by (cases ok) (simp_all add: os_flush_blocks_step [OF True f])
    have e: "os_flush_blocks os = os_flush_blocks ?os1"
      using ok by (simp add: os_flush_blocks_step [OF True f])
    have ih: "\<not> os_had_error ?os1 \<and> os_written (os_flush_blocks ?os1) = os_written ?os1"
      using "1.IH" [OF True refl f [symmetric] ok] "1.prems" e by simp
    have "f_bytes fp @ f_pending fp =
        f_bytes (os_file os) @ f_pending (os_file os) @ take (os_block os) (os_buffer os)"
      using f ok by (intro fwrite_ok) simp
    then have "os_written ?os1 = os_written os"
      by (simp add: os_written_def) (metis append.assoc append_take_drop_id)
    then show ?thesis using ih e by simp
  qed
qed

lemma WriteRaw_ok:
  assumes "\<not> os_had_error (WriteRaw bs os)"
  shows "\<not> os_had_error os \<and> os_written (WriteRaw bs os) = os_written os @ bs"
proof -
  have n: "\<not> os_had_error os" using assms by (auto simp: WriteRaw_def split: if_splits)
  then have "WriteRaw bs os = os_flush_blocks (os\<lparr>os_buffer := os_buffer os @ bs\<rparr>)"
    by (simp add: WriteRaw_def)
  then show ?thesis
    using os_flush_blocks_ok [of "os\<lparr>os_buffer := os_buffer os @ bs\<rparr>"] assms n
    by (simp add: os_written_def)
qed

lemma PrintSampleRecordInProtobuf_fields:
  "PrintSampleRecordInProtobuf K T P sc tt r os = (ok, os1, lg, tt1) \<Longrightarrow>
   tt1 = snd (snd (build_proto_record K T sc tt r))"
  by (auto simp: PrintSampleRecordInProtobuf_def Let_def split: prod.splits if_splits)

lemma ProcessRecord_fields:
  "ProcessRecord K T P cmd record = (ok, cmd1, lg) \<Longrightarrow>
   use_protobuf cmd1 = use_protobuf cmd \<and> show_callchain cmd1 = show_callchain cmd
   \<and> report_filename cmd1 = report_filename cmd"
  by (cases "record") (auto simp: ProcessRecord_def Let_def split: prod.splits if_splits)

lemma ReadDataSection_loop_fields:
  "ReadDataSection_loop K T P cmd records = (ok, cmd1, lg) \<Longrightarrow>
   use_protobuf cmd1 = use_protobuf cmd \<and> show_callchain cmd1 = show_callchain cmd
   \<and> report_filename cmd1 = report_filename cmd"
proof (induction records arbitrary: cmd ok cmd1 lg)
  case Nil
  then show ?case by simp
next
  case (Cons rec records)
  obtain ok' cmd' lg' where p: "ProcessRecord K T P cmd rec = (ok', cmd', lg')"
    by (cases "ProcessRecord K T P cmd rec") auto
  show ?case
  proof (cases ok')
    case False
    then show ?thesis using Cons.prems p ProcessRecord_fields [OF p] by simp
  next
    case True
    obtain ok2 cmd2 lg2 where l: "ReadDataSection_loop K T P cmd' records = (ok2, cmd2, lg2)"
      by (cases "ReadDataSection_loop K T P cmd' records") auto
    then show ?thesis
      using Cons.prems p True ProcessRecord_fields [OF p] Cons.IH [OF l] by simp
  qed
qed

lemma ReadDataSection_fields:
  "ReadDataSection K T P cmd reader = (ok, cmd1, lg) \<Longrightarrow>
   use_protobuf cmd1 = use_protobuf cmd \<and> show_callchain cmd1 = show_callchain cmd
   \<and> report_filename cmd1 = report_filename cmd"
  by (cases "ReadDataSection_loop K T P cmd (fst reader)")
     (auto simp: ReadDataSection_def dest: ReadDataSection_loop_fields)

lemma ParseOptions_protobuf_report:
  "ParseOptions args cmd0 = (True, cmd, lg) \<Longrightarrow> use_protobuf cmd \<Longrightarrow> report_filename cmd \<noteq> []"
  by (auto simp: ParseOptions_def Let_def split: prod.splits if_splits)

lemma Run_protobuf:
  assumes "ParseOptions args cmd0 = (True, cmd, lg0)"
    and "dump_protobuf_report_file cmd = []"
    and "use_protobuf cmd"
    and "CreateInstance F (record_filename cmd) = Some reader"
    and "fopen_w F (report_filename cmd) = Some (bufsize, room)"
  shows "Run K T P F cmd0 args w =
     Run_report K T P
       (cmd\<lparr>coded_os :=
          \<lparr>os_buffer = [], os_block = kDefaultBlockSize P,
           os_file = \<lparr>f_text = [], f_bytes = [], f_pending = [], f_bufsize = bufsize,
                      f_room = room, f_error = False\<rparr>,
           os_had_error = False\<rparr>\<rparr>)
       reader
       (w\<lparr>w_log := w_log w @ lg0,
          w_opened := w_opened w @ [record_filename cmd, report_filename cmd]\<rparr>)"
  using assms ParseOptions_protobuf_report [OF assms(1,3)]
  by (simp add: Run_def Let_def)

subsection \<open>A report file that takes every byte\<close>

lemma fwrite_unlimited:
  "f_room fp = None \<Longrightarrow>
   fst (fwrite bs fp) \<and> f_room (snd (fwrite bs fp)) = None
   \<and> f_error (snd (fwrite bs fp)) = f_error fp"
  by (simp add: fwrite_def fflush_def file_put_def Let_def)

lemma os_flush_blocks_unlimited:
  "f_room (os_file os) = None \<Longrightarrow> \<not> os_had_error os \<Longrightarrow>
   \<not> os_had_error (os_flush_blocks os) \<and> f_room (os_file (os_flush_blocks os)) = None
   \<and> f_error (os_file (os_flush_blocks os)) = f_error (os_file os)
   \<and> os_block (os_flush_blocks os) = os_block os"
proof (induction os rule: os_flush_blocks.induct)
  case (1 os)
  show ?case
  proof (cases "0 < os_block os \<and> os_block os < length (os_buffer os)")
    case False
    then show ?thesis using "1.prems" os_flush_blocks_idle [OF False] by simp
  next
    case True
    obtain ok fp where f: "fwrite (take (os_block os) (os_buffer os)) (os_file os) = (ok, fp)"
      by (cases "fwrite (take (os_block os) (os_buffer os)) (os_file os)") auto
    have ok: "ok" and r: "f_room fp = None" and e: "f_error fp = f_error (os_file os)"
      using fwrite_unlimited [OF "1.prems"(1), of "take (os_block os) (os_buffer os)"] f
      by simp_all
    let ?os1 = "os\<lparr>os_buffer := drop (os_block os) (os_buffer os), os_file := fp\<rparr>"
    have s: "os_flush_blocks os = os_flush_blocks ?os1"
      using ok by (simp add: os_flush_blocks_step [OF True f])
    show ?thesis
      using "1.IH" [OF True refl f [symmetric] ok] r e "1.prems"(2) s by simp
  qed
qed

lemma WriteRaw_unlimited:
  assumes "unlimited os"
  shows "unlimited (WriteRaw bs os) \<and> os_written (WriteRaw bs os) = os_written os @ bs
       \<and> os_block (WriteRaw bs os) = os_block os"
proof -
  let ?os1 = "os\<lparr>os_buffer := os_buffer os @ bs\<rparr>"
  have w: "WriteRaw bs os = os_flush_blocks ?os1"
    using assms by (simp add: WriteRaw_def unlimited_def)
  have f: "\<not> os_had_error (os_flush_blocks ?os1) \<and> f_room (os_file (os_flush_blocks ?os1)) = None
      \<and> f_error (os_file (os_flush_blocks ?os1)) = f_error (os_file ?os1)
      \<and> os_block (os_flush_blocks ?os1) = os_block ?os1"
    using assms by (intro os_flush_blocks_unlimited) (simp_all add: unlimited_def)
  then have "\<not> os_had_error (WriteRaw bs os)" by (simp add: w)
  then have "os_written (WriteRaw bs os) = os_written os @ bs"
    using WriteRaw_ok by blast
  then show ?thesis using f assms by (simp add: w unlimited_def)
qed

lemma close_unlimited:
  assumes "unlimited os"
  shows "f_bytes (fclose (os_close os)) = os_written os
       \<and> f_pending (fclose (os_close os)) = []"
  using assms
  by (simp add: unlimited_def fclose_def os_close_def fwrite_def fflush_def file_put_def
      os_written_def Let_def)

lemma PrintSampleRecordInProtobuf_unlimited:
  assumes "unlimited os"
  shows "\<exists>os1. PrintSampleRecordInProtobuf K T P sc tt r os =
           (True, os1, fst (snd (build_proto_record K T sc tt r)),
            snd (snd (build_proto_record K T sc tt r)))
       \<and> unlimited os1 \<and> os_block os1 = os_block os
       \<and> os_written os1 = os_written os @ framed P [fst (build_proto_record K T sc tt r)]"
proof -
  obtain m lg tt1 where b: "build_proto_record K T sc tt r = (m, lg, tt1)"
    by (cases "build_proto_record K T sc tt r") auto
  let ?os1 = "WriteLittleEndian32 (of_nat (ByteSize P m)) os"
  let ?os2 = "WriteRaw (SerializeAsBytes P m) ?os1"
  have 1: "unlimited ?os1 \<and> os_written ?os1 = os_written os @ le32_bytes (of_nat (ByteSize P m))
      \<and> os_block ?os1 = os_block os"
    using WriteRaw_unlimited [OF assms] by (simp add: WriteLittleEndian32_def)
  then have 2: "unlimited ?os2 \<and> os_written ?os2 = os_written ?os1 @ SerializeAsBytes P m
      \<and> os_block ?os2 = os_block ?os1"
    using WriteRaw_unlimited [of ?os1] by blast
  have "PrintSampleRecordInProtobuf K T P sc tt r os = (True, ?os2, lg, tt1)"
    using 2 by (simp add: PrintSampleRecordInProtobuf_def b SerializeToCodedStream_def Let_def
        unlimited_def)
  then show ?thesis using 1 2 by (simp add: b framed_def)
qed

lemma framed_append: "framed P (xs @ ys) = framed P xs @ framed P ys"
  by (simp add: framed_def)

lemma framed_Cons:
  "framed P (m # ms) = le32_bytes (of_nat (ByteSize P m)) @ SerializeAsBytes P m @ framed P ms"
  by (simp add: framed_def)


lemma written_records_SAMPLE:
  "m \<in> set (written_records K T sc tt records) \<Longrightarrow> record_type m = Record_Type_SAMPLE"
proof (induction records arbitrary: tt)
  case Nil
  then show ?case by simp
next
  case (Cons rec records)
  then show ?case
    by (cases rec) (auto simp: build_proto_record_walk split: prod.splits)
qed

lemma unat_ByteSize:
  "n < 2 ^ 32 \<Longrightarrow> unat (of_nat n :: u32) = n"
  by (simp add: unat_of_nat)

lemma loop_framed:
  fixes c :: "'s::len word"
  assumes "\<forall>m \<in> set ms. round_trips P m \<and> record_type m = Record_Type_SAMPLE"
  shows "DumpProtobufReport_loop P f (framed P ms @ le32_bytes 0 @ rest) c =
           (True, dump_samples c (map record_sample ms), [], c + of_nat (length ms))"
  using assms
proof (induction ms arbitrary: c)
  case Nil
  show ?case
    by (simp add: framed_def loop_zero [OF ReadLittleEndian32_le32_bytes])
next
  case (Cons m ms)
  let ?n = "ByteSize P m"
  let ?tail = "framed P ms @ le32_bytes 0 @ rest"
  have rt: "ParseFromBytes P (SerializeAsBytes P m) = Some (m, ?n)"
    and pos: "0 < ?n" and lt: "?n < 2 ^ 32" and ty: "record_type m = Record_Type_SAMPLE"
    using Cons.prems by (simp_all add: round_trips_def)
  have u: "unat (of_nat ?n :: u32) = ?n" using lt by (rule unat_ByteSize)
  have u': "unat (of_nat (length (SerializeAsBytes P m)) :: u32) = length (SerializeAsBytes P m)"
    using u by (simp add: ByteSize_def)
  have r: "ReadLittleEndian32 (framed P (m # ms) @ le32_bytes 0 @ rest) =
      Some (of_nat ?n, SerializeAsBytes P m @ ?tail)"
    by (simp add: framed_Cons ReadLittleEndian32_le32_bytes)
  have z: "(of_nat ?n :: u32) \<noteq> 0"
    using u pos by (metis unat_0 less_numeral_extra(3))
  have p: "ParseFromBytes P (take (unat (of_nat ?n :: u32)) (SerializeAsBytes P m @ ?tail)) =
      Some (m, ?n)"
    using rt by (simp add: u' ByteSize_def)
  have d: "drop (min ?n (unat (of_nat ?n :: u32))) (SerializeAsBytes P m @ ?tail) = ?tail"
    by (simp add: u' ByteSize_def)
  have ih: "DumpProtobufReport_loop P f ?tail (c + 1) =
      (True, dump_samples (c + 1) (map record_sample ms), [], c + 1 + of_nat (length ms))"
    using Cons.IH [of "c + 1"] Cons.prems by simp
  have "DumpProtobufReport_loop P f (framed P (m # ms) @ le32_bytes 0 @ rest) c =
      (True, dump_sample (unat (c + 1)) (record_sample m) @
             dump_samples (c + 1) (map record_sample ms), [], c + 1 + of_nat (length ms))"
    unfolding loop_sample [OF r z p ty] d ih by simp
  then show ?case by (simp add: add.assoc)
qed


lemma sample_blocks_dump_samples:
  "sample_blocks (dump_samples c ss) = length ss"
  by (induction ss arbitrary: c) (simp_all add: sample_blocks_def [of "[]"] sample_blocks_append
      sample_blocks_dump_sample)

lemma length_written_records:
  "length (written_records K T sc tt records) = length (sample_records records)"
proof (induction records arbitrary: tt)
  case Nil
  then show ?case by simp
next
  case (Cons rec records)
  then show ?case by (cases rec) (simp_all split: prod.splits)
qed

lemma times_written_records:
  "map (\<lambda>m. sample_time (record_sample m)) (written_records K T sc tt records) =
   map time_data_time (sample_records records)"
proof (induction records arbitrary: tt)
  case Nil
  then show ?case by simp
next
  case (Cons rec records)
  then show ?case by (cases rec) (simp_all add: build_proto_record_walk split: prod.splits)
qed


lemma ReadDataSection_loop_unlimited:
  "use_protobuf cmd \<Longrightarrow> unlimited (coded_os cmd) \<Longrightarrow>
   \<exists>cmd1 lg. ReadDataSection_loop K T P cmd records = (True, cmd1, lg)
     \<and> unlimited (coded_os cmd1) \<and> os_block (coded_os cmd1) = os_block (coded_os cmd)
     \<and> os_written (coded_os cmd1) = os_written (coded_os cmd) @
         framed P (written_records K T (show_callchain cmd) (thread_tree cmd) records)"
proof (induction records arbitrary: cmd)
  case Nil
  then show ?case by (simp add: framed_def)
next
  case (Cons rec records)
  show ?case
  proof (cases rec)
    case (Other_Record x)
    let ?cmd = "cmd\<lparr>thread_tree := Update T (Other_Record x) (thread_tree cmd)\<rparr>"
    have p: "ProcessRecord K T P cmd rec = (True, ?cmd, [])"
      using Other_Record by (simp add: ProcessRecord_def)
    obtain cmd1 lg where "ReadDataSection_loop K T P ?cmd records = (True, cmd1, lg)"
      and "unlimited (coded_os cmd1)" and "os_block (coded_os cmd1) = os_block (coded_os ?cmd)"
      and "os_written (coded_os cmd1) = os_written (coded_os ?cmd) @
         framed P (written_records K T (show_callchain ?cmd) (thread_tree ?cmd) records)"
      using Cons.IH [of ?cmd] Cons.prems by auto
    then show ?thesis using p Other_Record by simp
  next
    case (Sample_Record r)
    let ?tt = "Update T (Sample_Record r) (thread_tree cmd)"
    obtain m lgm tt1 where b: "build_proto_record K T (show_callchain cmd) ?tt r = (m, lgm, tt1)"
      by (cases "build_proto_record K T (show_callchain cmd) ?tt r") auto
    obtain os1 where
      w: "PrintSampleRecordInProtobuf K T P (show_callchain cmd) ?tt r (coded_os cmd) =
            (True, os1, lgm, tt1)"
      and u: "unlimited os1" and k: "os_block os1 = os_block (coded_os cmd)"
      and c: "os_written os1 = os_written (coded_os cmd) @ framed P [m]"
      using PrintSampleRecordInProtobuf_unlimited [OF Cons.prems(2), of K T P "show_callchain cmd"
          ?tt r] b by auto
    let ?cmd = "cmd\<lparr>thread_tree := tt1, sample_count := sample_count cmd + 1, coded_os := os1\<rparr>"
    have p: "ProcessRecord K T P cmd rec = (True, ?cmd, lgm)"
      using Sample_Record Cons.prems(1) w by (simp add: ProcessRecord_def Let_def)
    obtain cmd1 lg where "ReadDataSection_loop K T P ?cmd records = (True, cmd1, lg)"
      and "unlimited (coded_os cmd1)" and "os_block (coded_os cmd1) = os_block (coded_os ?cmd)"
      and "os_written (coded_os cmd1) = os_written (coded_os ?cmd) @
         framed P (written_records K T (show_callchain ?cmd) (thread_tree ?cmd) records)"
      using Cons.IH [of ?cmd] Cons.prems u by auto
    then show ?thesis using p Sample_Record b c k by (simp add: framed_Cons framed_def)
  qed
qed

lemma content_lines_dump_samples:
  "content_lines (dump_samples c ss) = concat (map sample_content ss)"
proof (induction ss arbitrary: c)
  case Nil
  show ?case by (simp add: content_lines_Nil)
next
  case (Cons s ss)
  have "content_lines (concat (map (frame_lines 2) es)) =
      concat (map (\<lambda>e. [L_ip (cc_ip e), L_dso (cc_file e), L_symbol (cc_symbol e)]) es)" for es
    using content_lines_frames [of 2 "\<lambda>e. e" es] by simp
  then have "content_lines (dump_sample n s) = sample_content s" for n
    by (simp add: dump_sample_frame_lines content_lines_append content_lines_Cons
        content_lines_Nil sample_content_def)
  then show ?case using Cons by (simp add: content_lines_append)
qed

lemma Run_report_unlimited:
  assumes "use_protobuf cmd" and "report_filename cmd \<noteq> []" and "unlimited (coded_os cmd)"
  shows "\<exists>w1 fp. Run_report K T P cmd (records, True) w = (True, w1)
       \<and> w_report w1 = Some fp
       \<and> f_bytes fp = os_written (coded_os cmd) @
           framed P (written_records K T (show_callchain cmd) (thread_tree cmd) records) @
           [0, 0, 0, 0]"
proof -
  obtain cmd1 lg where l: "ReadDataSection_loop K T P cmd records = (True, cmd1, lg)"
    and u1: "unlimited (coded_os cmd1)"
    and c: "os_written (coded_os cmd1) = os_written (coded_os cmd) @
         framed P (written_records K T (show_callchain cmd) (thread_tree cmd) records)"
    using ReadDataSection_loop_unlimited [OF assms(1,3), of K T P records] by blast
  have r: "ReadDataSection K T P cmd (records, True) = (True, cmd1, lg)"
    by (simp add: ReadDataSection_def l)
  have f: "use_protobuf cmd1" "report_filename cmd1 \<noteq> []"
    using ReadDataSection_fields [OF r] assms(1,2) by simp_all
  let ?os = "WriteLittleEndian32 0 (coded_os cmd1)"
  have t: "unlimited ?os" and tw: "os_written ?os = os_written (coded_os cmd1) @ [0, 0, 0, 0]"
    using WriteRaw_unlimited [OF u1, of "le32_bytes 0"]
    by (simp_all add: WriteLittleEndian32_def le32_bytes_def)
  have "Run_report K T P cmd (records, True) w =
      (True, (w\<lparr>w_log := w_log w @ lg @
                  [(INFO, ''report %zu samples in all.'', Size_arg (unat (sample_count cmd1)))]\<rparr>)
               \<lparr>w_report := Some (fclose (os_close ?os))\<rparr>)"
    using t f by (simp add: Run_report_def r leave_report_def report_fp_def unlimited_def Let_def)
  then show ?thesis
    using close_unlimited [OF t] tw c by simp
qed

subsection \<open>The example runs\<close>

lemma example_chain_build:
  "build_proto_record linux_perf_context example_tree True tt
     (example_sample [0x2000, 0xFFFFFFFFFFFFFF80, 0x3000]) =
     (\<lparr>record_type = Record_Type_SAMPLE,
       record_sample = \<lparr>sample_time = 7, sample_callchain =
         [\<lparr>cc_ip = 0x1000, cc_symbol = ''foo'', cc_file = ''libfoo.so''\<rparr>,
          \<lparr>cc_ip = 0x2000, cc_symbol = ''unknown'', cc_file = ''libfoo.so''\<rparr>,
          \<lparr>cc_ip = 0x3000, cc_symbol = ''unknown'', cc_file = ''[kernel.kallsyms]''\<rparr>]\<rparr>\<rparr>,
      [], tt)"
proof -
  have "walk linux_perf_context 0x1000 False True [0x2000, 0xFFFFFFFFFFFFFF80, 0x3000] =
      [(0x2000, False), (0x3000, True)]"
    by (simp add: linux_perf_context_def)
  moreover have "unexpected_contexts linux_perf_context [0x2000, 0xFFFFFFFFFFFFFF80, 0x3000] = []"
    by (simp add: unexpected_contexts_def linux_perf_context_def)
  ultimately show ?thesis
    by (simp add: build_proto_record_walk leaf_frame_eq resolve_frame_def tree_after_find_def
        sample_thread_def example_tree_def example_sample_def)
qed

lemma example_leaf_build:
  "build_proto_record linux_perf_context example_tree True tt (example_sample []) =
     (\<lparr>record_type = Record_Type_SAMPLE,
       record_sample = \<lparr>sample_time = 7, sample_callchain =
         [\<lparr>cc_ip = 0x1000, cc_symbol = ''foo'', cc_file = ''libfoo.so''\<rparr>]\<rparr>\<rparr>, [], tt)"
  by (simp add: build_proto_record_walk leaf_frame_eq resolve_frame_def tree_after_find_def
      sample_thread_def example_tree_def example_sample_def unexpected_contexts_def)

lemma WriteRaw_fits:
  "\<not> os_had_error os \<Longrightarrow> length (os_buffer os) + length bs \<le> os_block os \<Longrightarrow>
   WriteRaw bs os = os\<lparr>os_buffer := os_buffer os @ bs\<rparr>"
  by (simp add: WriteRaw_def os_flush_blocks_idle)

lemma WriteRaw_block_refused:
  assumes "\<not> os_had_error os"
    and "0 < os_block os" and "os_block os < length (os_buffer os) + length bs"
    and "f_pending (os_file os) = []" and "f_bufsize (os_file os) < os_block os"
    and "f_room (os_file os) = Some 0"
  shows "os_had_error (WriteRaw bs os)"
proof -
  let ?os1 = "os\<lparr>os_buffer := os_buffer os @ bs\<rparr>"
  have t: "0 < os_block ?os1 \<and> os_block ?os1 < length (os_buffer ?os1)"
    using assms(2,3) by simp
  have l: "length (take (os_block os) (os_buffer os @ bs)) = os_block os"
    using assms(3) by simp
  obtain fp where f: "fwrite (take (os_block ?os1) (os_buffer ?os1)) (os_file ?os1) = (False, fp)"
    using assms(2,4,5,6) l
    by (simp add: fwrite_def fflush_def file_put_def Let_def del: length_take)
  show ?thesis
    using assms(1) by (simp add: WriteRaw_def os_flush_blocks_step [OF t f])
qed

lemma example_build:
  "build_proto_record linux_perf_context example_tree False tt (example_sample vs) =
     (\<lparr>record_type = Record_Type_SAMPLE,
       record_sample = \<lparr>sample_time = 7, sample_callchain =
         [\<lparr>cc_ip = 0x1000, cc_symbol = ''foo'', cc_file = ''libfoo.so''\<rparr>]\<rparr>\<rparr>, [], tt)"
  by (simp add: build_proto_record_walk leaf_frame_eq resolve_frame_def tree_after_find_def
      sample_thread_def example_tree_def example_sample_def)

lemma example_print_fits:
  assumes "\<not> os_had_error os" and "length (os_buffer os) + 6 \<le> os_block os"
  shows "PrintSampleRecordInProtobuf linux_perf_context example_tree example_protobuf False tt
           (example_sample vs) os =
         (True, os\<lparr>os_buffer := os_buffer os @ [2, 0, 0, 0, 1, 7]\<rparr>, [], tt)"
proof -
  have s: "SerializeAsBytes example_protobuf
      \<lparr>record_type = Record_Type_SAMPLE,
       record_sample = \<lparr>sample_time = 7, sample_callchain =
         [\<lparr>cc_ip = 0x1000, cc_symbol = ''foo'', cc_file = ''libfoo.so''\<rparr>]\<rparr>\<rparr> = [1, 7]"
    by (simp add: example_protobuf_def)
  have l: "le32_bytes 2 = [2, 0, 0, 0]" by (simp add: le32_bytes_def)
  have 1: "WriteRaw [2, 0, 0, 0] os = os\<lparr>os_buffer := os_buffer os @ [2, 0, 0, 0]\<rparr>"
    using assms by (intro WriteRaw_fits) simp_all
  have 2: "WriteRaw [1, 7] (os\<lparr>os_buffer := os_buffer os @ [2, 0, 0, 0]\<rparr>) =
      os\<lparr>os_buffer := os_buffer os @ [2, 0, 0, 0, 1, 7]\<rparr>"
    using assms WriteRaw_fits [of "os\<lparr>os_buffer := os_buffer os @ [2, 0, 0, 0]\<rparr>" "[1, 7]"]
    by simp
  show ?thesis
    using assms(1)
    by (simp add: PrintSampleRecordInProtobuf_def example_build ByteSize_def s l
        WriteLittleEndian32_def SerializeToCodedStream_def 1 2)
qed

lemma example_update: "Update example_tree rec n = Suc n"
  by (simp add: example_tree_def)

lemma example_many_samples:
  "use_protobuf cmd \<Longrightarrow> \<not> show_callchain cmd \<Longrightarrow> \<not> os_had_error (coded_os cmd) \<Longrightarrow>
   length (os_buffer (coded_os cmd)) + 6 * n \<le> os_block (coded_os cmd) \<Longrightarrow>
   \<exists>cmd1 lg. ReadDataSection_loop linux_perf_context example_tree example_protobuf cmd
        (replicate n (Sample_Record (example_sample []))) = (True, cmd1, lg)
     \<and> coded_os cmd1 =
         (coded_os cmd)\<lparr>os_buffer := os_buffer (coded_os cmd) @
                                       concat (replicate n [2, 0, 0, 0, 1, 7])\<rparr>"
proof (induction n arbitrary: cmd)
  case 0
  then show ?case by simp
next
  case (Suc n)
  let ?os = "(coded_os cmd)\<lparr>os_buffer := os_buffer (coded_os cmd) @ [2, 0, 0, 0, 1, 7]\<rparr>"
  let ?cmd = "cmd\<lparr>thread_tree := Suc (thread_tree cmd), sample_count := sample_count cmd + 1,
                  coded_os := ?os\<rparr>"
  have p: "ProcessRecord linux_perf_context example_tree example_protobuf cmd
      (Sample_Record (example_sample [])) = (True, ?cmd, [])"
    using Suc.prems
    by (simp add: ProcessRecord_def example_update example_print_fits Let_def)
  obtain cmd1 lg where
    l: "ReadDataSection_loop linux_perf_context example_tree example_protobuf ?cmd
        (replicate n (Sample_Record (example_sample []))) = (True, cmd1, lg)"
    and c: "coded_os cmd1 =
         (coded_os ?cmd)\<lparr>os_buffer := os_buffer (coded_os ?cmd) @
                                       concat (replicate n [2, 0, 0, 0, 1, 7])\<rparr>"
    using Suc.IH [of ?cmd] Suc.prems by auto
  show ?case using p l c by simp
qed

lemma length_concat_replicate: "length (concat (replicate n xs)) = n * length xs"
  by (induction n) simp_all

subsection \<open>The terminator\<close>

text \<open>
  Claim C7. In binary mode, once every input record has been processed, the run hands
  the four bytes of a little-endian 32-bit zero to the coded stream and then asks the
  stream whether it had an error. If it had, the run returns false and its last log entry
  is the error \<^verbatim>\<open>print protobuf report failed\<close>; if it had not, the bytes the stream holds are
  those it held before, followed by the four zero bytes. In both cases the report file the
  run leaves is the file of that stream after the streams are closed, which nothing checks:
  bytes still in the block or in the buffer of stdio reach the file, or are lost, only then.
\<close>

theorem terminator_written_and_checked:
  assumes "ParseOptions args cmd0 = (True, cmd, lg0)"
    and "dump_protobuf_report_file cmd = []"
    and "use_protobuf cmd"
    and "CreateInstance F (record_filename cmd) = Some reader"
    and "fopen_w F (report_filename cmd) = Some (bufsize, room)"
    and "ReadDataSection K T P
           (cmd\<lparr>coded_os :=
              \<lparr>os_buffer = [], os_block = kDefaultBlockSize P,
               os_file = \<lparr>f_text = [], f_bytes = [], f_pending = [], f_bufsize = bufsize,
                          f_room = room, f_error = False\<rparr>,
               os_had_error = False\<rparr>\<rparr>)
           reader = (True, cmd1, lg)"
  shows "w_report (snd (Run K T P F cmd0 args w)) =
           Some (fclose (os_close (WriteLittleEndian32 0 (coded_os cmd1))))
       \<and> (os_had_error (WriteLittleEndian32 0 (coded_os cmd1)) \<longrightarrow>
             \<not> fst (Run K T P F cmd0 args w)
             \<and> last (w_log (snd (Run K T P F cmd0 args w))) =
                 (ERROR, ''print protobuf report failed'', No_arg))
       \<and> (\<not> os_had_error (WriteLittleEndian32 0 (coded_os cmd1)) \<longrightarrow>
             os_written (WriteLittleEndian32 0 (coded_os cmd1)) =
               os_written (coded_os cmd1) @ [0, 0, 0, 0])"
proof -
  have u: "use_protobuf cmd1" and n: "report_filename cmd1 \<noteq> []"
    using ReadDataSection_fields [OF assms(6)] assms(3) ParseOptions_protobuf_report [OF assms(1,3)]
    by simp_all
  have b: "\<not> os_had_error (WriteLittleEndian32 0 os) \<Longrightarrow>
      os_written (WriteLittleEndian32 0 os) = os_written os @ [0, 0, 0, 0]" for os
    using WriteRaw_ok [of "le32_bytes 0" os]
    by (simp add: WriteLittleEndian32_def le32_bytes_def)
  show ?thesis
    using u n b [of "coded_os cmd1"]
    by (simp add: Run_protobuf [OF assms(1-5)] Run_report_def assms(6) leave_report_def
        report_fp_def Let_def)
qed

theorem terminator_written_and_checked_witness:
  "(\<exists>fp. w_report (snd (Run linux_perf_context example_tree example_protobuf example_files
        (new_ReportSampleCommand 0) [''--protobuf'', ''-o'', ''out.pb'']
        (new_world :: 64 word world))) = Some fp
      \<and> f_bytes fp = [2, 0, 0, 0, 1, 7, 2, 0, 0, 0, 1, 7, 0, 0, 0, 0])
   \<and> \<not> fst (Run linux_perf_context example_tree example_protobuf example_files
        (new_ReportSampleCommand 0) [''--protobuf'', ''-i'', ''big.data'', ''-o'', ''full.pb'']
        (new_world :: 64 word world))
   \<and> last (w_log (snd (Run linux_perf_context example_tree example_protobuf example_files
        (new_ReportSampleCommand 0) [''--protobuf'', ''-i'', ''big.data'', ''-o'', ''full.pb'']
        (new_world :: 64 word world)))) = (ERROR, ''print protobuf report failed'', No_arg)
   \<and> fst (Run linux_perf_context example_tree example_protobuf example_files
        (new_ReportSampleCommand 0) [''--protobuf'', ''-o'', ''full.pb'']
        (new_world :: 64 word world))
   \<and> (\<exists>fp. w_report (snd (Run linux_perf_context example_tree example_protobuf example_files
        (new_ReportSampleCommand 0) [''--protobuf'', ''-o'', ''full.pb'']
        (new_world :: 64 word world))) = Some fp
      \<and> f_bytes fp = [] \<and> f_error fp)"
proof -
  let ?new = "new_ReportSampleCommand 0 :: (nat, 64 word) ReportSampleCommand"
  let ?file = "\<lambda>room. \<lparr>f_text = [], f_bytes = [], f_pending = [], f_bufsize = 4096,
                        f_room = room, f_error = False\<rparr>"
  let ?os = "\<lambda>room. \<lparr>os_buffer = [], os_block = kDefaultBlockSize example_protobuf,
                      os_file = ?file room, os_had_error = False\<rparr>"
  have k: "kDefaultBlockSize example_protobuf = 8192" by (simp add: example_protobuf_def)
  \<comment> \<open>The report \<^verbatim>\<open>out.pb\<close> of the two samples of \<^verbatim>\<open>perf.data\<close>.\<close>
  let ?cmd1 = "?new\<lparr>use_protobuf := True, report_filename := ''out.pb''\<rparr>"
  let ?records = "[Sample_Record (example_sample [0x2000]), Other_Record (),
                   Sample_Record (example_sample [])]"
  have o1: "ParseOptions [''--protobuf'', ''-o'', ''out.pb''] ?new = (True, ?cmd1, [])"
    by (simp add: ParseOptions_def new_ReportSampleCommand_def)
  have d1: "dump_protobuf_report_file ?cmd1 = []" by (simp add: new_ReportSampleCommand_def)
  have u1: "use_protobuf ?cmd1" by simp
  have c1: "CreateInstance example_files (record_filename ?cmd1) = Some (?records, True)"
    by (simp add: example_files_def new_ReportSampleCommand_def)
  have f1: "fopen_w example_files (report_filename ?cmd1) = Some (4096, None)"
    by (simp add: example_files_def)
  have un: "unlimited (coded_os (?cmd1\<lparr>coded_os := ?os None\<rparr>))" by (simp add: unlimited_def)
  obtain cmda lga where
    la: "ReadDataSection_loop linux_perf_context example_tree example_protobuf
          (?cmd1\<lparr>coded_os := ?os None\<rparr>) ?records = (True, cmda, lga)"
    and ua: "unlimited (coded_os cmda)"
    and wa: "os_written (coded_os cmda) = [2, 0, 0, 0, 1, 7, 2, 0, 0, 0, 1, 7]"
    using ReadDataSection_loop_unlimited [OF _ un, of linux_perf_context example_tree
        example_protobuf ?records]
    by (auto simp: example_build framed_def ByteSize_def example_protobuf_def le32_bytes_def
        new_ReportSampleCommand_def os_written_def)
  have ra: "ReadDataSection linux_perf_context example_tree example_protobuf
      (?cmd1\<lparr>coded_os := ?os None\<rparr>) (?records, True) = (True, cmda, lga)"
    unfolding ReadDataSection_def fst_conv snd_conv la by simp
  have ta: "unlimited (WriteLittleEndian32 0 (coded_os cmda))"
    using WriteRaw_unlimited [OF ua] by (simp add: WriteLittleEndian32_def)
  note A = terminator_written_and_checked [OF o1 d1 u1 c1 f1 ra, of "new_world :: 64 word world"]
  have first: "\<exists>fp. w_report (snd (Run linux_perf_context example_tree example_protobuf
        example_files ?new [''--protobuf'', ''-o'', ''out.pb''] (new_world :: 64 word world)))
          = Some fp
      \<and> f_bytes fp = [2, 0, 0, 0, 1, 7, 2, 0, 0, 0, 1, 7, 0, 0, 0, 0]"
    using A ta close_unlimited [OF ta] wa by (simp add: unlimited_def)
  \<comment> \<open>The 1365 samples of \<^verbatim>\<open>big.data\<close> on the full file: the terminator overflows the block.\<close>
  let ?cmd2 = "?new\<lparr>use_protobuf := True, record_filename := ''big.data'',
                     report_filename := ''full.pb''\<rparr>"
  let ?many = "replicate 1365 (Sample_Record (example_sample []))"
  have o2: "ParseOptions [''--protobuf'', ''-i'', ''big.data'', ''-o'', ''full.pb''] ?new =
      (True, ?cmd2, [])"
    by (simp add: ParseOptions_def new_ReportSampleCommand_def)
  have d2: "dump_protobuf_report_file ?cmd2 = []" by (simp add: new_ReportSampleCommand_def)
  have u2: "use_protobuf ?cmd2" by simp
  have c2: "CreateInstance example_files (record_filename ?cmd2) = Some (?many, True)"
    by (simp add: example_files_def)
  have f2: "fopen_w example_files (report_filename ?cmd2) = Some (4096, Some 0)"
    by (simp add: example_files_def)
  obtain cmdb lgb where
    lb: "ReadDataSection_loop linux_perf_context example_tree example_protobuf
          (?cmd2\<lparr>coded_os := ?os (Some 0)\<rparr>) ?many = (True, cmdb, lgb)"
    and cb: "coded_os cmdb = (?os (Some 0))\<lparr>os_buffer := concat (replicate 1365 [2, 0, 0, 0, 1, 7])\<rparr>"
    using example_many_samples [of "?cmd2\<lparr>coded_os := ?os (Some 0)\<rparr>" 1365]
    by (auto simp: k new_ReportSampleCommand_def)
  have rb: "ReadDataSection linux_perf_context example_tree example_protobuf
      (?cmd2\<lparr>coded_os := ?os (Some 0)\<rparr>) (?many, True) = (True, cmdb, lgb)"
    unfolding ReadDataSection_def fst_conv snd_conv lb by simp
  have "os_had_error (WriteRaw (le32_bytes 0) (coded_os cmdb))"
    by (rule WriteRaw_block_refused)
       (simp_all add: cb k length_concat_replicate le32_bytes_def)
  then have eb: "os_had_error (WriteLittleEndian32 0 (coded_os cmdb))"
    by (simp add: WriteLittleEndian32_def)
  note B = terminator_written_and_checked [OF o2 d2 u2 c2 f2 rb, of "new_world :: 64 word world"]
  have second: "\<not> fst (Run linux_perf_context example_tree example_protobuf example_files
        ?new [''--protobuf'', ''-i'', ''big.data'', ''-o'', ''full.pb'']
        (new_world :: 64 word world))
   \<and> last (w_log (snd (Run linux_perf_context example_tree example_protobuf example_files
        ?new [''--protobuf'', ''-i'', ''big.data'', ''-o'', ''full.pb'']
        (new_world :: 64 word world)))) = (ERROR, ''print protobuf report failed'', No_arg)"
    using B eb by simp
  \<comment> \<open>The two samples of \<^verbatim>\<open>perf.data\<close> on the full file: nothing leaves the block before the
    check, and the bytes are lost when the streams are closed.\<close>
  let ?cmd3 = "?new\<lparr>use_protobuf := True, report_filename := ''full.pb''\<rparr>"
  have o3: "ParseOptions [''--protobuf'', ''-o'', ''full.pb''] ?new = (True, ?cmd3, [])"
    by (simp add: ParseOptions_def new_ReportSampleCommand_def)
  have d3: "dump_protobuf_report_file ?cmd3 = []" by (simp add: new_ReportSampleCommand_def)
  have u3: "use_protobuf ?cmd3" by simp
  have c3: "CreateInstance example_files (record_filename ?cmd3) = Some (?records, True)"
    by (simp add: example_files_def new_ReportSampleCommand_def)
  have f3: "fopen_w example_files (report_filename ?cmd3) = Some (4096, Some 0)"
    by (simp add: example_files_def)
  obtain cmdc lgc where
    lc: "ReadDataSection_loop linux_perf_context example_tree example_protobuf
          (?cmd3\<lparr>coded_os := ?os (Some 0)\<rparr>) ?records = (True, cmdc, lgc)"
    and cc: "coded_os cmdc =
          (?os (Some 0))\<lparr>os_buffer := [2, 0, 0, 0, 1, 7, 2, 0, 0, 0, 1, 7]\<rparr>"
    and uc: "use_protobuf cmdc" and nc: "report_filename cmdc = ''full.pb''"
    by (simp add: ProcessRecord_def example_update example_print_fits k Let_def
        new_ReportSampleCommand_def)
  have rc: "ReadDataSection linux_perf_context example_tree example_protobuf
      (?cmd3\<lparr>coded_os := ?os (Some 0)\<rparr>) (?records, True) = (True, cmdc, lgc)"
    unfolding ReadDataSection_def fst_conv snd_conv lc by simp
  have tc: "WriteLittleEndian32 0 (coded_os cmdc) =
      (?os (Some 0))\<lparr>os_buffer := [2, 0, 0, 0, 1, 7, 2, 0, 0, 0, 1, 7, 0, 0, 0, 0]\<rparr>"
    by (simp add: WriteLittleEndian32_def WriteRaw_fits cc k le32_bytes_def)
  have xc: "f_bytes (fclose (os_close (WriteLittleEndian32 0 (coded_os cmdc)))) = []
      \<and> f_error (fclose (os_close (WriteLittleEndian32 0 (coded_os cmdc))))"
    by (simp add: tc os_close_def fwrite_def fclose_def fflush_def file_put_def)
  note C = terminator_written_and_checked [OF o3 d3 u3 c3 f3 rc, of "new_world :: 64 word world"]
  have third: "fst (Run linux_perf_context example_tree example_protobuf example_files
        ?new [''--protobuf'', ''-o'', ''full.pb''] (new_world :: 64 word world))"
    by (simp add: Run_protobuf [OF o3 d3 u3 c3 f3] Run_report_def rc uc tc report_fp_def Let_def)
  have fourth: "\<exists>fp. w_report (snd (Run linux_perf_context example_tree example_protobuf
        example_files ?new [''--protobuf'', ''-o'', ''full.pb''] (new_world :: 64 word world)))
          = Some fp \<and> f_bytes fp = [] \<and> f_error fp"
    using C xc by simp
  show ?thesis using first second third fourth by simp
qed

subsection \<open>Writing and reading back\<close>

text \<open>
  Claim C1. A run in binary mode whose record file is read completely and whose report
  file takes every byte returns true and leaves as the report the framed messages of the
  input's sample records followed by the terminator. If the message library reads back
  each of these messages from its bytes, the decoder, started on that report with sample
  counter \<open>c\<close>, returns true, has consumed the whole report and has printed one block per
  message, in order, numbered from \<open>c\<close>. The number of blocks is the number of sample records
  of the input; without the header lines, what is printed is, for each written message in
  order, its time followed by address, module and symbol of each of its frames; and the
  times of the messages are the times of the samples.
\<close>

theorem binary_report_round_trip:
  fixes c :: "'s::len word"
  assumes "ParseOptions args cmd0 = (True, cmd, lg0)"
    and "dump_protobuf_report_file cmd = []"
    and "use_protobuf cmd"
    and "CreateInstance F (record_filename cmd) = Some (records, True)"
    and "fopen_w F (report_filename cmd) = Some (bufsize, None)"
    and "ms = written_records K T (show_callchain cmd) (thread_tree cmd) records"
    and "\<forall>m \<in> set ms. round_trips P m"
  shows "(\<exists>w1 fp. Run K T P F cmd0 args w = (True, w1)
            \<and> w_report w1 = Some fp
            \<and> f_bytes fp = framed P ms @ [0, 0, 0, 0]
            \<and> DumpProtobufReport_loop P f (f_bytes fp) c =
                (True, dump_samples c (map record_sample ms), [], c + of_nat (length ms)))
       \<and> sample_blocks (dump_samples c (map record_sample ms)) = length (sample_records records)
       \<and> content_lines (dump_samples c (map record_sample ms)) =
           concat (map (\<lambda>m. sample_content (record_sample m)) ms)
       \<and> map (\<lambda>m. sample_time (record_sample m)) ms = map time_data_time (sample_records records)"
proof -
  have n: "report_filename cmd \<noteq> []"
    using ParseOptions_protobuf_report [OF assms(1,3)] .
  let ?cmd = "cmd\<lparr>coded_os :=
          \<lparr>os_buffer = [], os_block = kDefaultBlockSize P,
           os_file = \<lparr>f_text = [], f_bytes = [], f_pending = [], f_bufsize = bufsize,
                      f_room = None, f_error = False\<rparr>,
           os_had_error = False\<rparr>\<rparr>"
  have u: "unlimited (coded_os ?cmd)" by (simp add: unlimited_def)
  have e: "os_written (coded_os ?cmd) = []" by (simp add: os_written_def)
  let ?w = "w\<lparr>w_log := w_log w @ lg0,
          w_opened := w_opened w @ [record_filename cmd, report_filename cmd]\<rparr>"
  have "\<exists>w1 fp. Run_report K T P ?cmd (records, True) ?w = (True, w1)
       \<and> w_report w1 = Some fp
       \<and> f_bytes fp = os_written (coded_os ?cmd) @
           framed P (written_records K T (show_callchain ?cmd) (thread_tree ?cmd) records) @
           [0, 0, 0, 0]"
    using assms(3) n u by (intro Run_report_unlimited) simp_all
  then obtain w1 fp where r: "Run K T P F cmd0 args w = (True, w1)"
    and fp: "w_report w1 = Some fp"
    and b: "f_bytes fp = framed P ms @ [0, 0, 0, 0]"
    using assms(6) e by (auto simp: Run_protobuf [OF assms(1-5)])
  have "\<forall>m \<in> set ms. round_trips P m \<and> record_type m = Record_Type_SAMPLE"
    using assms(7) written_records_SAMPLE [of _ K T "show_callchain cmd" "thread_tree cmd" records]
    unfolding assms(6) by blast
  then have "DumpProtobufReport_loop P f (framed P ms @ le32_bytes 0 @ []) c =
      (True, dump_samples c (map record_sample ms), [], c + of_nat (length ms))"
    by (rule loop_framed)
  then have d: "DumpProtobufReport_loop P f (f_bytes fp) c =
      (True, dump_samples c (map record_sample ms), [], c + of_nat (length ms))"
    by (simp add: b le32_bytes_def)
  have "content_lines (dump_samples c (map record_sample ms)) =
      concat (map (\<lambda>m. sample_content (record_sample m)) ms)"
    by (simp add: content_lines_dump_samples comp_def)
  then show ?thesis
    using r fp b d assms(6)
    by (simp add: sample_blocks_dump_samples length_written_records times_written_records)
qed

theorem binary_report_round_trip_witness:
  "\<exists>w1 fp.
     Run linux_perf_context example_tree example_frames_protobuf example_files
       (new_ReportSampleCommand 0)
       [''--protobuf'', ''--show-callchain'', ''-i'', ''chain.data'', ''-o'', ''out.pb'']
       (new_world :: 64 word world) = (True, w1)
     \<and> w_report w1 = Some fp
     \<and> f_bytes fp = [8, 0, 0, 0, 1, 7, 1, 0, 2, 0, 3, 1, 4, 0, 0, 0, 1, 7, 1, 0, 0, 0, 0, 0]
     \<and> DumpProtobufReport_loop example_frames_protobuf ''out.pb'' (f_bytes fp) (0 :: 64 word) =
         (True,
          [(0, L_sample_n 1), (1, L_time 7), (1, L_callchain),
           (2, L_ip 0x1000), (2, L_dso ''libfoo.so''), (2, L_symbol ''foo''),
           (2, L_ip 0x2000), (2, L_dso ''libfoo.so''), (2, L_symbol ''unknown''),
           (2, L_ip 0x3000), (2, L_dso ''[kernel.kallsyms]''), (2, L_symbol ''unknown''),
           (0, L_sample_n 2), (1, L_time 7), (1, L_callchain),
           (2, L_ip 0x1000), (2, L_dso ''libfoo.so''), (2, L_symbol ''foo'')],
          [], 2)"
proof -
  let ?cmd = "(new_ReportSampleCommand 0 :: (nat, 64 word) ReportSampleCommand)
     \<lparr>use_protobuf := True, show_callchain := True, record_filename := ''chain.data'',
      report_filename := ''out.pb''\<rparr>"
  let ?records = "[Sample_Record (example_sample [0x2000, 0xFFFFFFFFFFFFFF80, 0x3000]),
                   Sample_Record (example_sample [])]"
  let ?m1 = "\<lparr>record_type = Record_Type_SAMPLE,
       record_sample = \<lparr>sample_time = 7, sample_callchain =
         [\<lparr>cc_ip = 0x1000, cc_symbol = ''foo'', cc_file = ''libfoo.so''\<rparr>,
          \<lparr>cc_ip = 0x2000, cc_symbol = ''unknown'', cc_file = ''libfoo.so''\<rparr>,
          \<lparr>cc_ip = 0x3000, cc_symbol = ''unknown'', cc_file = ''[kernel.kallsyms]''\<rparr>]\<rparr>\<rparr>"
  let ?m2 = "\<lparr>record_type = Record_Type_SAMPLE,
       record_sample = \<lparr>sample_time = 7, sample_callchain =
         [\<lparr>cc_ip = 0x1000, cc_symbol = ''foo'', cc_file = ''libfoo.so''\<rparr>]\<rparr>\<rparr>"
  have o: "ParseOptions [''--protobuf'', ''--show-callchain'', ''-i'', ''chain.data'', ''-o'',
      ''out.pb''] (new_ReportSampleCommand 0) = (True, ?cmd, [])"
    by (simp add: ParseOptions_def new_ReportSampleCommand_def)
  have d: "dump_protobuf_report_file ?cmd = []"
    by (simp add: new_ReportSampleCommand_def)
  have u: "use_protobuf ?cmd" by simp
  have c: "CreateInstance example_files (record_filename ?cmd) = Some (?records, True)"
    by (simp add: example_files_def)
  have f: "fopen_w example_files (report_filename ?cmd) = Some (4096, None)"
    by (simp add: example_files_def)
  have ms: "[?m1, ?m2] = written_records linux_perf_context example_tree (show_callchain ?cmd)
      (thread_tree ?cmd) ?records"
    by (simp add: example_chain_build example_leaf_build)
  have s1: "SerializeAsBytes example_frames_protobuf ?m1 = [1, 7, 1, 0, 2, 0, 3, 1]"
    and s2: "SerializeAsBytes example_frames_protobuf ?m2 = [1, 7, 1, 0]"
    by (simp_all add: example_frames_protobuf_def example_write_frame_def)
  have p1: "ParseFromBytes example_frames_protobuf [1, 7, 1, 0, 2, 0, 3, 1] = Some (?m1, 8)"
    and p2: "ParseFromBytes example_frames_protobuf [1, 7, 1, 0] = Some (?m2, 4)"
    by (simp_all add: example_frames_protobuf_def)
  have rt: "\<forall>m \<in> set [?m1, ?m2]. round_trips example_frames_protobuf m"
    by (simp add: round_trips_def ByteSize_def s1 s2 p1 p2)
  have fr: "framed example_frames_protobuf [?m1, ?m2] =
      [8, 0, 0, 0, 1, 7, 1, 0, 2, 0, 3, 1, 4, 0, 0, 0, 1, 7, 1, 0]"
    by (simp add: framed_def ByteSize_def s1 s2 le32_bytes_def)
  show ?thesis
    using binary_report_round_trip [OF o d u c f ms rt, of "new_world :: 64 word world"
        "''out.pb''" "0 :: 64 word"]
    unfolding fr by (simp add: dump_sample_def)
qed

end
